theory Spec2Isabelle
  imports Complex_Main
begin

section \<open>QNPtoVox: pipeline orchestration, annotation join and voxel-block stamping\<close>

text \<open>
  A shallow embedding of \<^verbatim>\<open>scripts/pipeline_utils.py\<close> and
  \<^verbatim>\<open>scripts/pipeline_steps.py\<close>. Python strings are modelled as
  \<^typ>\<open>string\<close>, lists of 8-bit characters: a character is a code point below 256,
  and the string primitives below are the Python ones on such strings. Python integers
  are \<^typ>\<open>int\<close>.
  An exception is a value of \<open>pyerr\<close>; a function that can raise returns
  \<open>pyerr + 'a\<close> with \<open>Inl\<close> for the exception.
\<close>

subsection \<open>Python primitives\<close>

datatype pyerr = ValueError | TypeError | IndexError | KeyError | RuntimeError | OtherError

text \<open>
  \<^verbatim>\<open>str.isspace\<close> for one character: TAB, LF, VT, FF, CR, FS, GS, RS, US, space,
  NEL (U+0085) and the no-break space (U+00A0).
\<close>

definition is_space :: "char \<Rightarrow> bool" where
  "is_space c =
     (let n = (of_char c :: nat)
      in (9 \<le> n \<and> n \<le> 13) \<or> (28 \<le> n \<and> n \<le> 32) \<or> n = 133 \<or> n = 160)"

text \<open>\<^verbatim>\<open>s.strip()\<close>\<close>

definition strip :: "string \<Rightarrow> string" where
  "strip s = rev (dropWhile is_space (rev (dropWhile is_space s)))"

text \<open>
  \<^verbatim>\<open>s.lower()\<close>: the capital letters \<open>A\<close> to \<open>Z\<close> and U+00C0 to U+00DE (without the
  multiplication sign U+00D7) have their small letter 32 code points further.
\<close>

definition lower_char :: "char \<Rightarrow> char" where
  "lower_char c =
     (let n = (of_char c :: nat)
      in if (65 \<le> n \<and> n \<le> 90) \<or> (192 \<le> n \<and> n \<le> 222 \<and> n \<noteq> 215) then char_of (n + 32) else c)"

definition lower :: "string \<Rightarrow> string" where
  "lower s = map lower_char s"

text \<open>\<^verbatim>\<open>s.split(sep)\<close> for a one-character separator: always at least one piece.\<close>

fun split_on :: "char \<Rightarrow> string \<Rightarrow> string list" where
  "split_on sep [] = [[]]"
| "split_on sep (c # cs) =
     (if c = sep then [] # split_on sep cs
      else (case split_on sep cs of
              [] \<Rightarrow> [[c]]
            | p # ps \<Rightarrow> (c # p) # ps))"

text \<open>
  \<^verbatim>\<open>a, b = s.split(sep, 1)\<close> for a string that contains \<open>sep\<close>: the text before the
  first separator and the text after it.
\<close>

definition split_once :: "char \<Rightarrow> string \<Rightarrow> string \<times> string" where
  "split_once sep s = (takeWhile (\<lambda>c. c \<noteq> sep) s, drop 1 (dropWhile (\<lambda>c. c \<noteq> sep) s))"

text \<open>
  The decimal digits \<open>0\<close> to \<open>9\<close>, which \<^verbatim>\<open>int\<close> and \<^verbatim>\<open>float\<close> read, and the
  superscript digits U+00B2, U+00B3 and U+00B9, which they do not read but which
  \<^verbatim>\<open>str.isdigit\<close> accepts.
\<close>

definition is_digit :: "char \<Rightarrow> bool" where
  "is_digit c = (let n = (of_char c :: nat) in 48 \<le> n \<and> n \<le> 57)"

definition is_superscript :: "char \<Rightarrow> bool" where
  "is_superscript c = (let n = (of_char c :: nat) in n = 178 \<or> n = 179 \<or> n = 185)"

text \<open>\<^verbatim>\<open>s.isdigit()\<close>: non-empty and every character is a digit of either kind.\<close>

definition isdigit :: "string \<Rightarrow> bool" where
  "isdigit s = (s \<noteq> [] \<and> list_all (\<lambda>c. is_digit c \<or> is_superscript c) s)"

definition digit_val :: "char \<Rightarrow> nat" where
  "digit_val c = of_char c - 48"

text \<open>The value of a string of decimal digits, most significant digit first.\<close>

definition digits_val :: "string \<Rightarrow> nat" where
  "digits_val s = foldl (\<lambda>acc c. 10 * acc + digit_val c) 0 s"

text \<open>
  \<^verbatim>\<open>int(s)\<close> on a string, base 10: surrounding whitespace is stripped, one optional
  sign, then decimal digits; single underscores may separate digits; more than 4300
  digits raise \<^verbatim>\<open>ValueError\<close> (the interpreter's default limit on integer strings).
\<close>

fun digit_groups :: "string \<Rightarrow> bool" where
  "digit_groups [] = False"
| "digit_groups [c] = is_digit c"
| "digit_groups (c # d # cs) =
     (is_digit c \<and> (if d = CHR ''_'' then digit_groups cs else digit_groups (d # cs)))"

definition int_of_unsigned :: "string \<Rightarrow> pyerr + int" where
  "int_of_unsigned s =
     (if \<not> digit_groups s then Inl ValueError
      else if 4300 < length (filter is_digit s) then Inl ValueError
      else Inr (int (digits_val (filter (\<lambda>c. c \<noteq> CHR ''_'') s))))"

definition py_int_str :: "string \<Rightarrow> pyerr + int" where
  "py_int_str s =
     (case strip s of
        [] \<Rightarrow> Inl ValueError
      | c # cs \<Rightarrow>
          if c = CHR ''-'' then (case int_of_unsigned cs of Inl e \<Rightarrow> Inl e | Inr n \<Rightarrow> Inr (- n))
          else if c = CHR ''+'' then int_of_unsigned cs
          else int_of_unsigned (c # cs))"

text \<open>\<^verbatim>\<open>str(n)\<close> for an integer.\<close>

definition digit_char :: "nat \<Rightarrow> char" where
  "digit_char d = ''0123456789'' ! d"

fun str_nat :: "nat \<Rightarrow> string" where
  "str_nat n = (if n < 10 then [digit_char n] else str_nat (n div 10) @ [digit_char (n mod 10)])"

definition str_int :: "int \<Rightarrow> string" where
  "str_int i = (if i < 0 then CHR ''-'' # str_nat (nat (- i)) else str_nat (nat i))"

subsection \<open>ConfigStore: \<^verbatim>\<open>PipelineConfig._load_config\<close>\<close>

text \<open>
  A configuration value after coercion. \<open>CfgFloat s\<close> stands for the float
  \<^verbatim>\<open>float(s)\<close>; it is kept as the text that was converted.
\<close>

datatype cfg_value =
    CfgBool bool
  | CfgInt int
  | CfgFloat string
  | CfgList "string list"
  | CfgStr string

text \<open>
  \<^verbatim>\<open>float(value)\<close> at its only call site, where \<open>value\<close> is made of digits (of
  either kind) and points and has at least one digit: it parses when the digits are all
  decimal and there is exactly one point, and raises \<^verbatim>\<open>ValueError\<close> otherwise.
\<close>

definition py_float_token :: "string \<Rightarrow> pyerr + cfg_value" where
  "py_float_token v =
     (if length (filter (\<lambda>c. c = CHR ''.'') v) = 1 \<and> list_all (\<lambda>c. is_digit c \<or> c = CHR ''.'') v
      then Inr (CfgFloat v) else Inl ValueError)"

text \<open>The \<^verbatim>\<open>if/elif\<close> chain that converts a stripped value token.\<close>

definition coerce_value :: "string \<Rightarrow> pyerr + cfg_value" where
  "coerce_value v =
     (if lower v \<in> set [''true'', ''false''] then Inr (CfgBool (lower v = ''true''))
      else if isdigit (filter (\<lambda>c. c \<noteq> CHR ''.'') v) then
        (if CHR ''.'' \<in> set v then py_float_token v else (case py_int_str v of Inl e \<Rightarrow> Inl e | Inr n \<Rightarrow> Inr (CfgInt n)))
      else if CHR '','' \<in> set v then Inr (CfgList (map strip (split_on CHR '','' v)))
      else Inr (CfgStr v))"


text \<open>
  The loop over the lines of the configuration file. The dictionary is a map from keys
  to coerced values. A line without \<open>=\<close> only prints a warning.
\<close>

definition starts_with_hash :: "string \<Rightarrow> bool" where
  "starts_with_hash line = (case line of [] \<Rightarrow> False | c # _ \<Rightarrow> c = CHR ''#'')"

fun load_lines :: "string list \<Rightarrow> (string \<rightharpoonup> cfg_value) \<Rightarrow> pyerr + (string \<rightharpoonup> cfg_value)" where
  "load_lines [] config = Inr config"
| "load_lines (l # ls) config =
     (let line = strip l in
      if line = [] \<or> starts_with_hash line then load_lines ls config
      else if CHR ''='' \<in> set line then
        (let (key, val) = split_once CHR ''='' line;
             key = strip key;
             val = strip val
         in case coerce_value val of
              Inl e \<Rightarrow> Inl e
            | Inr v \<Rightarrow> load_lines ls (config(key \<mapsto> v)))
      else load_lines ls config)"

text \<open>
  \<^verbatim>\<open>_load_config\<close>: any exception raised in the loop is re-raised as
  \<^verbatim>\<open>RuntimeError\<close>. The argument is the list of the file's lines.
\<close>

definition load_config :: "string list \<Rightarrow> pyerr + (string \<rightharpoonup> cfg_value)" where
  "load_config lines = (case load_lines lines Map.empty of Inl e \<Rightarrow> Inl RuntimeError | Inr config \<Rightarrow> Inr config)"

text \<open>
  The coercion policy in the words of the specification: literal \<open>true\<close>/\<open>false\<close> is a
  boolean; a token of digits and at most one decimal point is numeric (float with a point,
  integer without); a token with commas is a list of trimmed tokens; anything else is a
  string; first match wins and nothing raises.
\<close>

definition digits_and_points :: "string \<Rightarrow> bool" where
  "digits_and_points v = list_all (\<lambda>c. is_digit c \<or> c = CHR ''.'') v"

definition count_points :: "string \<Rightarrow> nat" where
  "count_points v = length (filter (\<lambda>c. c = CHR ''.'') v)"

definition coerce_spec :: "string \<Rightarrow> cfg_value" where
  "coerce_spec v =
     (if v = ''true'' then CfgBool True
      else if v = ''false'' then CfgBool False
      else if digits_and_points v \<and> count_points v \<le> 1 then
        (if count_points v = 1 then CfgFloat v else CfgInt (int (digits_val v)))
      else if CHR '','' \<in> set v then CfgList (map strip (split_on CHR '','' v))
      else CfgStr v)"

text \<open>
  The policy as the code has it: \<open>true\<close>/\<open>false\<close> are recognised in any letter case,
  and a numeric token needs at least one digit (digits are the decimal digits).
\<close>

definition coerce_policy :: "string \<Rightarrow> cfg_value" where
  "coerce_policy v =
     (if lower v = ''true'' then CfgBool True
      else if lower v = ''false'' then CfgBool False
      else if digits_and_points v \<and> (\<exists>c \<in> set v. is_digit c) \<and> count_points v \<le> 1 then
        (if count_points v = 1 then CfgFloat v else CfgInt (int (digits_val v)))
      else if CHR '','' \<in> set v then CfgList (map strip (split_on CHR '','' v))
      else CfgStr v)"

text \<open>
  The tokens that pass the numeric test and that \<^verbatim>\<open>float\<close> or \<^verbatim>\<open>int\<close> then
  reject: two or more points (a version number, a dotted address), a superscript digit,
  or an integer of more than 4300 digits.
\<close>

definition rejected_number :: "string \<Rightarrow> bool" where
  "rejected_number v =
     (isdigit (filter (\<lambda>c. c \<noteq> CHR ''.'') v)
      \<and> (2 \<le> count_points v \<or> (\<exists>c \<in> set v. is_superscript c)
           \<or> (count_points v = 0 \<and> 4300 < length v)))"

subsection \<open>Subjects and paths\<close>

text \<open>
  A subject identifier reaches the steps as a Python \<^verbatim>\<open>int\<close> (from
  \<^verbatim>\<open>--subjects\<close>, parsed with \<^verbatim>\<open>type=int\<close>) or as a \<^verbatim>\<open>str\<close> (an item of a
  comma-separated \<^verbatim>\<open>subject_list\<close>, which the configuration loader turns into a list
  of strings).
\<close>

datatype subject_id = SubjInt int | SubjStr string

text \<open>\<^verbatim>\<open>str(subject_id)\<close>, also what an f-string interpolates.\<close>

fun subject_str :: "subject_id \<Rightarrow> string" where
  "subject_str (SubjInt n) = str_int n"
| "subject_str (SubjStr s) = s"

text \<open>
  A path is the list of its components. The file system is the set of the paths that
  exist (files and directories alike).
\<close>

type_synonym path = "string list"
type_synonym fs = "path set"

definition path_exists :: "fs \<Rightarrow> path \<Rightarrow> bool" where
  "path_exists files p = (p \<in> files)"

text \<open>\<^verbatim>\<open>any(d.iterdir())\<close>: some existing path is a child of \<open>d\<close>.\<close>

definition any_iterdir :: "fs \<Rightarrow> path \<Rightarrow> bool" where
  "any_iterdir files d = (\<exists>p \<in> files. p \<noteq> [] \<and> butlast p = d)"

text \<open>\<^verbatim>\<open>d.mkdir(parents=True, exist_ok=True)\<close>\<close>

definition mkdir_p :: "path \<Rightarrow> fs \<Rightarrow> fs" where
  "mkdir_p d files = files \<union> set (map (\<lambda>n. take n d) [1..<Suc (length d)])"

record config =
  output_base :: path
  logs_dir :: path

text \<open>\<^verbatim>\<open>PipelineConfig.get_subject_output_dir\<close> and \<^verbatim>\<open>get_subject_step_dir\<close>\<close>

definition get_subject_output_dir :: "config \<Rightarrow> subject_id \<Rightarrow> path" where
  "get_subject_output_dir cfg subject = output_base cfg @ [subject_str subject]"

definition get_subject_step_dir :: "config \<Rightarrow> subject_id \<Rightarrow> string \<Rightarrow> path" where
  "get_subject_step_dir cfg subject step_suffix =
     get_subject_output_dir cfg subject @ [subject_str subject @ step_suffix]"

text \<open>
  \<^verbatim>\<open>Path(...) / subject_id\<close> as the kernel and MNI steps write it, without
  \<^verbatim>\<open>str\<close>: joining a path with an \<^verbatim>\<open>int\<close> raises \<^verbatim>\<open>TypeError\<close>.
\<close>

fun path_join_subject :: "path \<Rightarrow> subject_id \<Rightarrow> pyerr + path" where
  "path_join_subject p (SubjStr s) = Inr (p @ [s])"
| "path_join_subject p (SubjInt n) = Inl TypeError"

subsection \<open>OutputLedger and StageRunner\<close>

text \<open>\<^verbatim>\<open>check_existing_outputs\<close>\<close>

definition check_existing_outputs :: "config \<Rightarrow> subject_id list \<Rightarrow> string \<Rightarrow> fs \<Rightarrow> subject_id list" where
  "check_existing_outputs cfg subjects step_suffix files =
     filter (\<lambda>subject.
        let step_dir = get_subject_step_dir cfg subject step_suffix
        in path_exists files step_dir \<and> any_iterdir files step_dir) subjects"

text \<open>\<^verbatim>\<open>create_output_directories\<close>\<close>

definition create_output_directories :: "config \<Rightarrow> subject_id list \<Rightarrow> fs \<Rightarrow> fs" where
  "create_output_directories cfg subjects files =
     fold (\<lambda>subject. mkdir_p (get_subject_output_dir cfg subject)) subjects
       (mkdir_p (logs_dir cfg) (mkdir_p (output_base cfg) files))"

text \<open>
  The outcome of running a stage: the verdict, the subjects for which the per-subject
  procedure was invoked (in order), and the file system afterwards.
\<close>

record outcome =
  ok :: bool
  attempted :: "subject_id list"
  files_after :: fs

text \<open>
  The per-subject procedure of a stage is a parameter: it takes the subject, the
  dry-run flag and the file system, and returns its verdict and the new file system.
\<close>

type_synonym subject_proc = "subject_id \<Rightarrow> bool \<Rightarrow> fs \<Rightarrow> bool \<times> fs"

text \<open>
  The loop \<^verbatim>\<open>for subject in subjects\<close>, counting the successes. The model also
  records, in \<open>called\<close>, the subjects the procedure was invoked for, in order.
\<close>

fun process_subjects :: "subject_proc \<Rightarrow> bool \<Rightarrow> subject_id list \<Rightarrow> nat \<Rightarrow> subject_id list \<Rightarrow> fs \<Rightarrow> nat \<times> subject_id list \<times> fs" where
  "process_subjects proc dry_run [] success_count called files = (success_count, called, files)"
| "process_subjects proc dry_run (subject # rest) success_count called files =
     (case proc subject dry_run files of
        (True, files') \<Rightarrow> process_subjects proc dry_run rest (success_count + 1) (called @ [subject]) files'
      | (False, files') \<Rightarrow> process_subjects proc dry_run rest success_count (called @ [subject]) files')"

text \<open>\<^verbatim>\<open>BaseStep.execute\<close>\<close>

definition base_execute :: "config \<Rightarrow> string \<Rightarrow> subject_proc \<Rightarrow> subject_id list \<Rightarrow> bool \<Rightarrow> bool \<Rightarrow> fs \<Rightarrow> outcome" where
  "base_execute cfg step_suffix proc subjects force dry_run files =
     (let subjects =
            (if \<not> force then
               (let existing = check_existing_outputs cfg subjects step_suffix files
                in if existing \<noteq> [] then filter (\<lambda>s. s \<notin> set existing) subjects else subjects)
             else subjects)
      in if subjects = [] then \<lparr>ok = True, attempted = [], files_after = files\<rparr>
         else
           (let files1 = create_output_directories cfg subjects files;
                (success_count, called, files2) = process_subjects proc dry_run subjects 0 [] files1
            in \<lparr>ok = (success_count = length subjects), attempted = called, files_after = files2\<rparr>))"

text \<open>\<^verbatim>\<open>MNIRegistrationStep.execute\<close>: its own method, not inherited from \<^verbatim>\<open>BaseStep\<close>.\<close>

definition mni_execute :: "subject_proc \<Rightarrow> subject_id list \<Rightarrow> bool \<Rightarrow> bool \<Rightarrow> fs \<Rightarrow> outcome" where
  "mni_execute proc subjects force dry_run files =
     (let (success_count, called, files2) = process_subjects proc dry_run subjects 0 [] files
      in \<lparr>ok = (success_count = length subjects), attempted = called, files_after = files2\<rparr>)"

datatype stage = Upsample | Slice | Extract | Transform | Kernel | MNI

text \<open>
  \<^verbatim>\<open>get_step_suffix\<close> of each step class; for the MNI step, which has none, the
  directory its \<^verbatim>\<open>_process_subject\<close> writes to.
\<close>

fun step_suffix :: "stage \<Rightarrow> string" where
  "step_suffix Upsample = ''_upsampled''"
| "step_suffix Slice = ''_slices''"
| "step_suffix Extract = ''_coordinates''"
| "step_suffix Transform = ''_transformation''"
| "step_suffix Kernel = ''_kernel''"
| "step_suffix MNI = ''_mni_registration''"

text \<open>\<^verbatim>\<open>step_functions[step].execute(subjects, force, dry_run, logger)\<close>\<close>

definition stage_execute :: "stage \<Rightarrow> config \<Rightarrow> subject_proc \<Rightarrow> subject_id list \<Rightarrow> bool \<Rightarrow> bool \<Rightarrow> fs \<Rightarrow> outcome" where
  "stage_execute st cfg proc subjects force dry_run files =
     (if st = MNI then mni_execute proc subjects force dry_run files
      else base_execute cfg (step_suffix st) proc subjects force dry_run files)"

text \<open>A per-subject procedure that always succeeds and changes nothing, and an example
  configuration with the default directories.\<close>

definition always_ok :: subject_proc where
  "always_ok subject dry_run files = (True, files)"

definition example_config :: config where
  "example_config = \<lparr>output_base = [''output''], logs_dir = [''logs'']\<rparr>"

text \<open>
  A file system in which subject 6966 has kernel output and MNI output already.
\<close>

definition example_files :: fs where
  "example_files =
     {[''output''], [''output'', ''6966''],
      [''output'', ''6966'', ''6966_kernel''],
      [''output'', ''6966'', ''6966_kernel'', ''6966_QNP_AT8_smoothed_sig2.nii.gz''],
      [''output'', ''6966'', ''6966_mni_registration''],
      [''output'', ''6966'', ''6966_mni_registration'', ''6966_QNP_mask_ToMNI.nii.gz'']}"

text \<open>The stage's output for a subject exists: the directory exists and has an entry.\<close>

definition has_output :: "config \<Rightarrow> stage \<Rightarrow> fs \<Rightarrow> subject_id \<Rightarrow> bool" where
  "has_output cfg st files subject =
     (let step_dir = get_subject_step_dir cfg subject (step_suffix st)
      in path_exists files step_dir \<and> any_iterdir files step_dir)"


subsection \<open>KernelApplicationStep\<close>

text \<open>
  \<^verbatim>\<open>KernelApplicationStep._process_subject\<close>. The smoothing itself
  (\<^verbatim>\<open>_apply_kernel\<close>, which reads the input image and writes the output) is a
  parameter. Every exception inside the \<^verbatim>\<open>try\<close> is caught and gives \<open>False\<close>.
\<close>

definition kernel_output_file :: "config \<Rightarrow> string \<Rightarrow> path" where
  "kernel_output_file cfg sid =
     output_base cfg @ [sid, sid @ ''_kernel'', sid @ ''_QNP_AT8_smoothed_sig2.nii.gz'']"

definition kernel_process_subject :: "config \<Rightarrow> (path \<Rightarrow> path \<Rightarrow> fs \<Rightarrow> bool \<times> fs) \<Rightarrow> subject_proc" where
  "kernel_process_subject cfg apply_kernel subject dry_run files =
     (case path_join_subject (output_base cfg) subject of
        Inl e \<Rightarrow> (False, files)
      | Inr subject_dir \<Rightarrow>
          (let transformation_dir = subject_dir @ [subject_str subject @ ''_transformation''];
               aligned_block_file =
                 transformation_dir @ [subject_str subject @ ''_QNP_AT8_mask_block_aligned.nii.gz''];
               output_dir = subject_dir @ [subject_str subject @ ''_kernel''];
               output_file = output_dir @ [subject_str subject @ ''_QNP_AT8_smoothed_sig2.nii.gz'']
           in if dry_run then (True, files)
              else
                (let files1 = mkdir_p output_dir files
                 in if path_exists files1 output_file then (True, files1)
                    else if \<not> path_exists files1 aligned_block_file then (False, files1)
                    else apply_kernel aligned_block_file output_file files1)))"

text \<open>A smoothing that succeeds and writes its output file.\<close>

definition apply_kernel_ok :: "path \<Rightarrow> path \<Rightarrow> fs \<Rightarrow> bool \<times> fs" where
  "apply_kernel_ok input_file output_file files = (True, insert output_file files)"

subsection \<open>Tables\<close>

text \<open>
  A cell of a pandas table or of a numpy object array: \<open>CNone\<close> is Python's
  \<^verbatim>\<open>None\<close>, \<open>CNaN\<close> a missing value, \<open>CFloat q\<close> the finite float whose exact value
  is the rational \<open>q\<close>.
\<close>

datatype cell = CNone | CNaN | CInt int | CFloat rat | CStr string

record dataframe =
  columns :: "string list"
  rows :: "cell list list"

text \<open>\<^verbatim>\<open>int(v)\<close> on a cell: a float is truncated toward zero.\<close>

fun py_int :: "cell \<Rightarrow> pyerr + int" where
  "py_int (CInt n) = Inr n"
| "py_int (CFloat q) = Inr (if 0 \<le> q then \<lfloor>q\<rfloor> else \<lceil>q\<rceil>)"
| "py_int (CStr s) = py_int_str s"
| "py_int CNaN = Inl ValueError"
| "py_int CNone = Inl TypeError"

text \<open>\<^verbatim>\<open>df.iloc[r, c]\<close>\<close>

definition iloc :: "dataframe \<Rightarrow> nat \<Rightarrow> nat \<Rightarrow> pyerr + cell" where
  "iloc df r c =
     (if r < length (rows df) \<and> c < length (rows df ! r) then Inr (rows df ! r ! c)
      else Inl IndexError)"

text \<open>\<^verbatim>\<open>df[name] = v\<close>: overwrite the column if it exists, append it otherwise.\<close>

fun index_of :: "string \<Rightarrow> string list \<Rightarrow> nat option" where
  "index_of name [] = None"
| "index_of name (c # cs) = (if c = name then Some 0 else map_option Suc (index_of name cs))"

definition set_column :: "dataframe \<Rightarrow> string \<Rightarrow> cell \<Rightarrow> dataframe" where
  "set_column df name v =
     (case index_of name (columns df) of
        Some k \<Rightarrow> df\<lparr>rows := map (\<lambda>r. r[k := v]) (rows df)\<rparr>
      | None \<Rightarrow> df\<lparr>columns := columns df @ [name], rows := map (\<lambda>r. r @ [v]) (rows df)\<rparr>)"

text \<open>\<^verbatim>\<open>df[name]\<close> read in one row.\<close>

definition get_field :: "dataframe \<Rightarrow> string \<Rightarrow> cell list \<Rightarrow> cell option" where
  "get_field df name r =
     (case index_of name (columns df) of
        Some k \<Rightarrow> (if k < length r then Some (r ! k) else None)
      | None \<Rightarrow> None)"

subsection \<open>AnnotationJoiner: \<^verbatim>\<open>CoordinateExtractionStep._create_processed_file\<close>\<close>

text \<open>
  One pass of the loop \<^verbatim>\<open>for i in range(n_i)\<close> over the array \<open>tile_coords\<close>,
  which starts as \<open>n_i\<close> rows of four \<^verbatim>\<open>None\<close>.
\<close>

definition join_row :: "dataframe \<Rightarrow> dataframe \<Rightarrow> nat \<Rightarrow> cell list list \<Rightarrow> pyerr + cell list list" where
  "join_row df_tiles df_at8 i tile_coords =
     (let y = 5 * i in
      if y < length (rows df_tiles) then
        (case iloc df_tiles y 0 of Inl e \<Rightarrow> Inl e | Inr name \<Rightarrow>
        (case iloc df_tiles y 1 of Inl e \<Rightarrow> Inl e | Inr cx \<Rightarrow>
        (case py_int cx of Inl e \<Rightarrow> Inl e | Inr x \<Rightarrow>
        (case iloc df_tiles y 2 of Inl e \<Rightarrow> Inl e | Inr cy \<Rightarrow>
        (case py_int cy of Inl e \<Rightarrow> Inl e | Inr z \<Rightarrow>
        (case iloc df_at8 i 1 of Inl e \<Rightarrow> Inl e | Inr at8 \<Rightarrow>
           Inr (tile_coords[i := [name, CInt (x div 1000), CInt (z div 1000), at8]])))))))
      else Inr tile_coords)"

fun join_loop :: "dataframe \<Rightarrow> dataframe \<Rightarrow> nat list \<Rightarrow> cell list list \<Rightarrow> pyerr + cell list list" where
  "join_loop df_tiles df_at8 [] tile_coords = Inr tile_coords"
| "join_loop df_tiles df_at8 (i # is) tile_coords =
     (case join_row df_tiles df_at8 i tile_coords of
        Inl e \<Rightarrow> Inl e
      | Inr tile_coords' \<Rightarrow> join_loop df_tiles df_at8 is tile_coords')"

text \<open>
  The body of the \<^verbatim>\<open>try\<close>. Its arguments are what the two \<^verbatim>\<open>pd.read_csv\<close>
  calls give (a table, or the exception they raise); its result is the table written to
  the processed file.
\<close>

definition join_body :: "pyerr + dataframe \<Rightarrow> pyerr + dataframe \<Rightarrow> pyerr + dataframe" where
  "join_body tiles_csv at8_csv =
     (case tiles_csv of Inl e \<Rightarrow> Inl e | Inr df_tiles \<Rightarrow>
     (case at8_csv of Inl e \<Rightarrow> Inl e | Inr df_at8 \<Rightarrow>
        if length (rows df_at8) = 0 then Inr (set_column df_tiles ''AT8'' (CInt 0))
        else
          (let n_i = length (rows df_at8);
               tile_coords = replicate n_i [CNone, CNone, CNone, CNone]
           in (case join_loop df_tiles df_at8 [0..<n_i] tile_coords of
                 Inl e \<Rightarrow> Inl e
               | Inr tile_coords' \<Rightarrow>
                   Inr \<lparr>columns = [''Tile'', ''X'', ''Z'', ''AT8''], rows = tile_coords'\<rparr>))))"

text \<open>
  What ends up at the processed-file path: the table the body wrote, or, when the body
  raised, a copy of the coordinate file.
\<close>

datatype processed_file = Written dataframe | CopyOfCoordFile

definition create_processed_file :: "pyerr + dataframe \<Rightarrow> pyerr + dataframe \<Rightarrow> processed_file" where
  "create_processed_file tiles_csv at8_csv =
     (case join_body tiles_csv at8_csv of
        Inl e \<Rightarrow> CopyOfCoordFile
      | Inr df \<Rightarrow> Written df)"

text \<open>
  \<^verbatim>\<open>CoordinateExtractionStep._process_subject\<close>. The inputs are what the step finds:
  whether the two input files exist, the coordinates and measurements extracted from them,
  and what reading back the two CSV files it has just written gives. The result is the
  verdict and the processed file, if one was written.
\<close>

record extract_inputs =
  annotation_exists :: bool
  summary_exists :: bool
  coordinates :: "(string \<times> string \<times> string) list"
  at8_values :: "(string \<times> rat) list"
  tiles_csv :: "pyerr + dataframe"
  at8_csv :: "pyerr + dataframe"

definition extract_process_subject :: "extract_inputs \<Rightarrow> bool \<Rightarrow> bool \<times> processed_file option" where
  "extract_process_subject inp dry_run =
     (if dry_run then (True, None)
      else if \<not> annotation_exists inp then (False, None)
      else if \<not> summary_exists inp then (False, None)
      else if coordinates inp = [] then (False, None)
      else (True, Some (create_processed_file (tiles_csv inp) (at8_csv inp))))"


text \<open>
  The row the join writes at index \<open>i\<close>, in the words of the specification: built from
  \<open>coords[5*i]\<close> and \<open>measurements[i]\<close>, with \<open>X\<close> and \<open>Z\<close> the coordinate values
  floor-divided by 1000, when \<open>5*i\<close> is a coordinate index; the row the array was
  allocated with otherwise.
\<close>

definition joined_row :: "dataframe \<Rightarrow> dataframe \<Rightarrow> nat \<Rightarrow> cell list" where
  "joined_row df_tiles df_at8 i =
     (if 5 * i < length (rows df_tiles) then
        [rows df_tiles ! (5 * i) ! 0,
         CInt (projr (py_int (rows df_tiles ! (5 * i) ! 1)) div 1000),
         CInt (projr (py_int (rows df_tiles ! (5 * i) ! 2)) div 1000),
         rows df_at8 ! i ! 1]
      else [CNone, CNone, CNone, CNone])"

text \<open>
  The tables on which the join does not raise: every sampled coordinate row has its
  three cells, with \<open>X\<close> and \<open>Y\<close> convertible by \<^verbatim>\<open>int\<close>, and the measurement
  row paired with it has its two cells.
\<close>

definition good_index :: "dataframe \<Rightarrow> dataframe \<Rightarrow> nat \<Rightarrow> bool" where
  "good_index df_tiles df_at8 i =
     (5 * i < length (rows df_tiles) \<longrightarrow>
        3 \<le> length (rows df_tiles ! (5 * i))
      \<and> \<not> isl (py_int (rows df_tiles ! (5 * i) ! 1))
      \<and> \<not> isl (py_int (rows df_tiles ! (5 * i) ! 2))
      \<and> 2 \<le> length (rows df_at8 ! i))"

definition joinable :: "dataframe \<Rightarrow> dataframe \<Rightarrow> bool" where
  "joinable df_tiles df_at8 = list_all (good_index df_tiles df_at8) [0..<length (rows df_at8)]"

text \<open>Example tables: one and six coordinates, two and three measurements.\<close>

definition one_coordinate :: dataframe where
  "one_coordinate =
     \<lparr>columns = [''Name'', ''X'', ''Y''], rows = [[CStr ''Tile 1'', CInt 12345, CInt 6789]]\<rparr>"

definition two_measurements :: dataframe where
  "two_measurements =
     \<lparr>columns = [''Tile'', ''AT8_Value''],
      rows = [[CStr ''Tile 1'', CFloat (5 / 2)], [CStr ''Tile 2'', CFloat 3]]\<rparr>"

definition six_coordinates :: dataframe where
  "six_coordinates =
     \<lparr>columns = [''Name'', ''X'', ''Y''],
      rows = [[CStr ''Tile 1'', CInt 12345, CInt 6789],
              [CStr ''Tile 1'', CInt 13345, CInt 6789],
              [CStr ''Tile 1'', CInt 13345, CInt 7789],
              [CStr ''Tile 1'', CInt 12345, CInt 7789],
              [CStr ''Tile 1'', CInt 12345, CInt 6789],
              [CStr ''Tile 2'', CInt (- 1), CStr '' 2_500 '']]\<rparr>"

definition three_measurements :: dataframe where
  "three_measurements =
     \<lparr>columns = [''Tile'', ''AT8_Value''],
      rows = [[CStr ''Tile 1'', CFloat (5 / 2)], [CStr ''Tile 2'', CFloat 3],
              [CStr ''Tile 3'', CFloat (1 / 4)]]\<rparr>"

text \<open>
  Two example inputs of the extraction step: one whose first coordinate has an \<open>X\<close>
  field that is not a number, and one with two coordinates and no measurement.
\<close>

definition unparsable_inputs :: extract_inputs where
  "unparsable_inputs =
     \<lparr>annotation_exists = True, summary_exists = True,
      coordinates = [(''Tile 1'', ''abc'', ''2000'')],
      at8_values = [(''Tile 1'', 5 / 2)],
      tiles_csv = Inr \<lparr>columns = [''Name'', ''X'', ''Y''],
                       rows = [[CStr ''Tile 1'', CStr ''abc'', CInt 2000]]\<rparr>,
      at8_csv = Inr \<lparr>columns = [''Tile'', ''AT8_Value''],
                     rows = [[CStr ''Tile 1'', CFloat (5 / 2)]]\<rparr>\<rparr>"

definition two_coordinates :: dataframe where
  "two_coordinates =
     \<lparr>columns = [''Name'', ''X'', ''Y''],
      rows = [[CStr ''Tile 1'', CInt 1000, CInt 2000], [CStr ''Tile 1'', CInt 3000, CInt 2000]]\<rparr>"

definition no_measurements :: dataframe where
  "no_measurements = \<lparr>columns = [''Tile'', ''AT8_Value''], rows = []\<rparr>"

definition no_measurement_inputs :: extract_inputs where
  "no_measurement_inputs =
     \<lparr>annotation_exists = True, summary_exists = True,
      coordinates = [(''Tile 1'', ''1000'', ''2000''), (''Tile 1'', ''3000'', ''2000'')],
      at8_values = [],
      tiles_csv = Inr two_coordinates,
      at8_csv = Inr no_measurements\<rparr>"

subsection \<open>ManualAnchorResolver: \<^verbatim>\<open>_load_manual_coordinates\<close>\<close>

text \<open>
  \<^verbatim>\<open>x, y, z = map(int, coords.strip().split(','))\<close>: a wrong number of pieces and a
  piece that is not an integer both raise \<^verbatim>\<open>ValueError\<close>.
\<close>

definition parse_coords :: "string \<Rightarrow> pyerr + (int \<times> int \<times> int)" where
  "parse_coords coords =
     (case split_on CHR '','' (strip coords) of
        [a, b, c] \<Rightarrow>
          (case py_int_str a of Inl e \<Rightarrow> Inl e | Inr x \<Rightarrow>
          (case py_int_str b of Inl e \<Rightarrow> Inl e | Inr y \<Rightarrow>
          (case py_int_str c of Inl e \<Rightarrow> Inl e | Inr z \<Rightarrow> Inr (x, y, z))))
      | _ \<Rightarrow> Inl ValueError)"

text \<open>The loop over the lines of the sidecar file, inside the \<^verbatim>\<open>try\<close>.\<close>

fun scan_lines :: "string list \<Rightarrow> string \<Rightarrow> pyerr + (int \<times> int \<times> int) option" where
  "scan_lines [] sid = Inr None"
| "scan_lines (l # ls) sid =
     (let line = strip l in
      if starts_with_hash line \<or> line = [] then scan_lines ls sid
      else if CHR ''='' \<in> set line then
        (let (subj, coords) = split_once CHR ''='' line;
             subj = strip subj
         in if subj = sid then
              (case parse_coords coords of Inl e \<Rightarrow> Inl e | Inr xyz \<Rightarrow> Inr (Some xyz))
            else scan_lines ls sid)
      else scan_lines ls sid)"

text \<open>
  \<^verbatim>\<open>_load_manual_coordinates\<close> returns \<^verbatim>\<open>Optional[tuple]\<close>: the \<^verbatim>\<open>except\<close>
  branch logs and returns \<^verbatim>\<open>None\<close>, and so does the end of the loop.
\<close>

definition load_manual_coordinates :: "string list \<Rightarrow> subject_id \<Rightarrow> (int \<times> int \<times> int) option" where
  "load_manual_coordinates lines subject =
     (case scan_lines lines (subject_str subject) of
        Inl e \<Rightarrow> None
      | Inr r \<Rightarrow> r)"

text \<open>
  The resolver in the words of the specification: the first line, among those that are
  not blank and do not begin with \<open>#\<close>, whose left-hand side is the subject; then three
  comma-separated integers, with one error for a missing line and another for a
  malformed right-hand side.
\<close>

datatype anchor_error = AnchorNotFound | AnchorMalformed

definition anchor_line_for :: "string \<Rightarrow> string \<Rightarrow> bool" where
  "anchor_line_for sid l =
     (let line = strip l
      in line \<noteq> [] \<and> \<not> starts_with_hash line \<and> CHR ''='' \<in> set line
         \<and> strip (fst (split_once CHR ''='' line)) = sid)"

definition resolve_anchor_spec :: "string list \<Rightarrow> string \<Rightarrow> anchor_error + (int \<times> int \<times> int)" where
  "resolve_anchor_spec lines sid =
     (case find (anchor_line_for sid) lines of
        None \<Rightarrow> Inl AnchorNotFound
      | Some l \<Rightarrow>
          (case parse_coords (snd (split_once CHR ''='' (strip l))) of
             Inl e \<Rightarrow> Inl AnchorMalformed
           | Inr xyz \<Rightarrow> Inr xyz))"

subsection \<open>VolumeBlockBuilder: \<^verbatim>\<open>_create_3d_blocks\<close>\<close>

text \<open>
  A row of the processed tile table as the builder reads it. \<open>X\<close> and \<open>Z\<close> are cells,
  since the builder converts them with \<^verbatim>\<open>int\<close>; \<open>AT8\<close> is the number stored
  into the mask. The mask (\<open>vmask\<close> below) is a function from voxel indices to values together with the
  shape of the reference image; it is only ever written inside the shape.
\<close>

record 'v tile_row =
  Tile :: cell
  X :: cell
  Z :: cell
  AT8 :: 'v

type_synonym voxel = "int \<times> int \<times> int"

definition in_bounds :: "int \<times> int \<times> int \<Rightarrow> voxel \<Rightarrow> bool" where
  "in_bounds shape p =
     (case shape of (s0, s1, s2) \<Rightarrow> case p of (x, y, z) \<Rightarrow>
        0 \<le> x \<and> x < s0 \<and> 0 \<le> y \<and> y < s1 \<and> 0 \<le> z \<and> z < s2)"

text \<open>
  The three nested loops over \<^verbatim>\<open>range(-half_block, half_block + 1)\<close> with the guarded
  assignment \<^verbatim>\<open>mask[nx, ny, nz] = at8_value\<close>.
\<close>

definition stamp_block :: "int \<times> int \<times> int \<Rightarrow> voxel \<Rightarrow> int \<Rightarrow> 'v \<Rightarrow> (voxel \<Rightarrow> 'v) \<Rightarrow> (voxel \<Rightarrow> 'v)" where
  "stamp_block shape c block_size at8_value vmask =
     (case c of (x, y, z) \<Rightarrow>
      let half_block = block_size div 2 in
      fold (\<lambda>dx. fold (\<lambda>dy. fold (\<lambda>dz m.
              let n = (x + dx, y + dy, z + dz)
              in if in_bounds shape n then m(n := at8_value) else m)
            [- half_block..half_block])
          [- half_block..half_block])
        [- half_block..half_block] vmask)"

text \<open>The body of the loop over the rows of the table, for one row.\<close>

definition stamp_row :: "int \<times> int \<times> int \<Rightarrow> int \<times> int \<times> int \<Rightarrow> int \<Rightarrow> 'v tile_row \<Rightarrow> (voxel \<Rightarrow> 'v) \<Rightarrow> pyerr + (voxel \<Rightarrow> 'v)" where
  "stamp_row shape manual_coords block_size row vmask =
     (case manual_coords of (x_offset, y_slice, z_offset) \<Rightarrow>
     (case py_int (X row) of Inl e \<Rightarrow> Inl e | Inr original_x \<Rightarrow>
     (case py_int (Z row) of Inl e \<Rightarrow> Inl e | Inr original_z \<Rightarrow>
        (let x = original_x + x_offset; y = y_slice; z = original_z + z_offset
         in if in_bounds shape (x, y, z)
            then Inr (stamp_block shape (x, y, z) block_size (AT8 row) vmask)
            else Inr vmask))))"

fun stamp_rows :: "int \<times> int \<times> int \<Rightarrow> int \<times> int \<times> int \<Rightarrow> int \<Rightarrow> 'v tile_row list \<Rightarrow> (voxel \<Rightarrow> 'v) \<Rightarrow> pyerr + (voxel \<Rightarrow> 'v)" where
  "stamp_rows shape manual_coords block_size [] vmask = Inr vmask"
| "stamp_rows shape manual_coords block_size (row # rest) vmask =
     (case stamp_row shape manual_coords block_size row vmask of
        Inl e \<Rightarrow> Inl e
      | Inr vmask' \<Rightarrow> stamp_rows shape manual_coords block_size rest vmask')"

text \<open>
  The second loop, which lists the absolute coordinates \<open>(Tile, X, Y, Z, AT8)\<close> of every
  row, in bounds or not.
\<close>

fun transformed_rows :: "int \<times> int \<times> int \<Rightarrow> 'v tile_row list \<Rightarrow> pyerr + (cell \<times> int \<times> int \<times> int \<times> 'v) list" where
  "transformed_rows manual_coords [] = Inr []"
| "transformed_rows manual_coords (row # rest) =
     (case manual_coords of (x_offset, y_slice, z_offset) \<Rightarrow>
     (case py_int (X row) of Inl e \<Rightarrow> Inl e | Inr original_x \<Rightarrow>
     (case py_int (Z row) of Inl e \<Rightarrow> Inl e | Inr original_z \<Rightarrow>
     (case transformed_rows manual_coords rest of Inl e \<Rightarrow> Inl e | Inr ts \<Rightarrow>
        Inr ((Tile row, original_x + x_offset, y_slice, original_z + z_offset, AT8 row) # ts)))))"

text \<open>
  \<^verbatim>\<open>_create_3d_blocks\<close>: the mask starts as zeros; \<open>Inl\<close> is the exception that the
  method turns into the verdict \<open>False\<close>.
\<close>

definition create_3d_blocks :: "int \<times> int \<times> int \<Rightarrow> int \<times> int \<times> int \<Rightarrow> int \<Rightarrow> ('v::zero) tile_row list \<Rightarrow> pyerr + ((voxel \<Rightarrow> 'v) \<times> (cell \<times> int \<times> int \<times> int \<times> 'v) list)" where
  "create_3d_blocks shape manual_coords block_size df =
     (case stamp_rows shape manual_coords block_size df (\<lambda>_. 0) of
        Inl e \<Rightarrow> Inl e
      | Inr vmask \<Rightarrow>
          (case transformed_rows manual_coords df of
             Inl e \<Rightarrow> Inl e
           | Inr transformed_data \<Rightarrow> Inr (vmask, transformed_data)))"

text \<open>
  The stamped cube of a row: the voxels its pass through the loop assigns. The cube
  in the words of the specification has side \<open>blockSize\<close> and reaches \<open>blockSize // 2\<close>
  voxels toward the negative side of each axis.
\<close>

definition centered_cube :: "int \<Rightarrow> voxel \<Rightarrow> voxel set" where
  "centered_cube h c =
     (case c of (x, y, z) \<Rightarrow>
        {p. case p of (px, py, pz) \<Rightarrow> \<bar>px - x\<bar> \<le> h \<and> \<bar>py - y\<bar> \<le> h \<and> \<bar>pz - z\<bar> \<le> h})"

definition spec_cube :: "int \<Rightarrow> voxel \<Rightarrow> voxel set" where
  "spec_cube block_size c =
     (case c of (x, y, z) \<Rightarrow>
        {p. case p of (px, py, pz) \<Rightarrow>
           x - block_size div 2 \<le> px \<and> px < x - block_size div 2 + block_size
         \<and> y - block_size div 2 \<le> py \<and> py < y - block_size div 2 + block_size
         \<and> z - block_size div 2 \<le> pz \<and> pz < z - block_size div 2 + block_size})"

text \<open>
  Example rows for a reference image of shape \<open>(20, 20, 20)\<close> and the manual
  coordinates \<open>(0, 10, 0)\<close>: two rows whose cubes of block size 7 both contain the voxel
  \<open>(10, 10, 10)\<close>, and one row far outside the image.
\<close>

definition record_a :: "rat tile_row" where
  "record_a = \<lparr>Tile = CStr ''Tile 1'', X = CInt 9, Z = CInt 10, AT8 = 5\<rparr>"

definition record_b :: "rat tile_row" where
  "record_b = \<lparr>Tile = CStr ''Tile 2'', X = CInt 11, Z = CInt 10, AT8 = 9\<rparr>"

definition record_far :: "rat tile_row" where
  "record_far = \<lparr>Tile = CStr ''Tile 3'', X = CInt 100, Z = CInt 10, AT8 = 4\<rparr>"

definition covers :: "int \<times> int \<times> int \<Rightarrow> int \<times> int \<times> int \<Rightarrow> int \<Rightarrow> 'v tile_row \<Rightarrow> voxel \<Rightarrow> bool" where
  "covers shape manual_coords block_size row p =
     (case manual_coords of (x_offset, y_slice, z_offset) \<Rightarrow>
     (case py_int (X row) of Inl e \<Rightarrow> False | Inr original_x \<Rightarrow>
     (case py_int (Z row) of Inl e \<Rightarrow> False | Inr original_z \<Rightarrow>
        in_bounds shape (original_x + x_offset, y_slice, original_z + z_offset)
        \<and> in_bounds shape p
        \<and> p \<in> centered_cube (block_size div 2) (original_x + x_offset, y_slice, original_z + z_offset))))"


subsection \<open>The builder on the processed file\<close>

text \<open>
  The head of the builder's loop body: \<^verbatim>\<open>row = df.iloc[i]\<close> and the four reads
  \<^verbatim>\<open>row['Tile']\<close>, \<^verbatim>\<open>row['X']\<close>, \<^verbatim>\<open>row['Z']\<close>, \<^verbatim>\<open>row['AT8']\<close>, in this
  order; a column the table does not have raises \<^verbatim>\<open>KeyError\<close>.
\<close>

definition read_tile_row :: "dataframe \<Rightarrow> cell list \<Rightarrow> pyerr + cell tile_row" where
  "read_tile_row df r =
     (case get_field df ''Tile'' r of None \<Rightarrow> Inl KeyError | Some tile_name \<Rightarrow>
     (case get_field df ''X'' r of None \<Rightarrow> Inl KeyError | Some original_x \<Rightarrow>
     (case get_field df ''Z'' r of None \<Rightarrow> Inl KeyError | Some original_z \<Rightarrow>
     (case get_field df ''AT8'' r of None \<Rightarrow> Inl KeyError | Some at8_value \<Rightarrow>
        Inr \<lparr>Tile = tile_name, X = original_x, Z = original_z, AT8 = at8_value\<rparr>))))"

text \<open>
  The builder's first loop over the rows of a table, with the mask holding cells; it
  starts from a mask of zeros. \<open>Inl\<close> is the exception that \<^verbatim>\<open>_create_3d_blocks\<close>
  turns into the verdict \<open>False\<close>, which fails the subject.
\<close>

fun stamp_table_rows :: "int \<times> int \<times> int \<Rightarrow> int \<times> int \<times> int \<Rightarrow> int \<Rightarrow> dataframe \<Rightarrow> cell list list \<Rightarrow> (voxel \<Rightarrow> cell) \<Rightarrow> pyerr + (voxel \<Rightarrow> cell)" where
  "stamp_table_rows shape manual_coords block_size df [] vmask = Inr vmask"
| "stamp_table_rows shape manual_coords block_size df (r # rest) vmask =
     (case read_tile_row df r of
        Inl e \<Rightarrow> Inl e
      | Inr row \<Rightarrow>
          (case stamp_row shape manual_coords block_size row vmask of
             Inl e \<Rightarrow> Inl e
           | Inr vmask' \<Rightarrow> stamp_table_rows shape manual_coords block_size df rest vmask'))"

definition stamp_table :: "int \<times> int \<times> int \<Rightarrow> int \<times> int \<times> int \<Rightarrow> int \<Rightarrow> dataframe \<Rightarrow> pyerr + (voxel \<Rightarrow> cell)" where
  "stamp_table shape manual_coords block_size df =
     stamp_table_rows shape manual_coords block_size df (rows df) (\<lambda>_. CFloat 0)"

text \<open>
  What \<^verbatim>\<open>pd.read_csv\<close> gives for a file that \<^verbatim>\<open>df.to_csv\<close> wrote, as far as
  missing values go: \<^verbatim>\<open>None\<close> is written as an empty field, and an empty field is
  read as NaN.
\<close>

definition read_back :: "dataframe \<Rightarrow> dataframe" where
  "read_back df = df\<lparr>rows := map (map (\<lambda>c. if c = CNone then CNaN else c)) (rows df)\<rparr>"

section \<open>Properties\<close>

subsection \<open>Configuration values\<close>

lemma digit_not_space: "is_digit c \<Longrightarrow> \<not> is_space c"
  by (auto simp: is_digit_def is_space_def Let_def)

lemma strip_digits: "list_all is_digit v \<Longrightarrow> strip v = v"
proof -
  assume a: "list_all is_digit v"
  have d: "\<And>w. list_all is_digit w \<Longrightarrow> dropWhile is_space w = w"
    by (case_tac w) (auto simp: digit_not_space)
  have "list_all is_digit (rev v)" using a by (simp add: list_all_iff)
  then show ?thesis using a by (simp add: strip_def d)
qed

lemma digit_chars: "is_digit c \<Longrightarrow> c \<noteq> CHR ''_'' \<and> c \<noteq> CHR ''-'' \<and> c \<noteq> CHR ''+'' \<and> c \<noteq> CHR ''.''"
  by (auto simp: is_digit_def Let_def)

lemma digit_groups_digits: "v \<noteq> [] \<Longrightarrow> list_all is_digit v \<Longrightarrow> digit_groups v"
  by (induction v rule: digit_groups.induct) (auto simp: digit_chars)

lemma filter_underscore_digits: "list_all is_digit v \<Longrightarrow> filter (\<lambda>c. c \<noteq> CHR ''_'') v = v"
  by (induction v) (auto simp: digit_chars)

lemma filter_digits_digits: "list_all is_digit v \<Longrightarrow> filter is_digit v = v"
  by (induction v) auto

lemma py_int_str_digits:
  assumes "v \<noteq> []" and "list_all is_digit v" and "length v \<le> 4300"
  shows "py_int_str v = Inr (int (digits_val v))"
proof -
  from assms obtain c cs where v: "v = c # cs" and all: "list_all is_digit (c # cs)"
    by (cases v) auto
  have s: "strip v = c # cs" using strip_digits all v by simp
  have c: "c \<noteq> CHR ''-''" "c \<noteq> CHR ''+''" using all digit_chars by auto
  have len: "\<not> 4300 < length (filter is_digit (c # cs))"
    using assms(3) v filter_digits_digits[OF all] by simp
  have "int_of_unsigned (c # cs) = Inr (int (digits_val (c # cs)))"
    using digit_groups_digits[of "c # cs"] filter_underscore_digits[OF all] all len
    by (simp add: int_of_unsigned_def)
  then show ?thesis using s c v by (simp add: py_int_str_def)
qed

lemma point_not_digit: "\<not> is_digit CHR ''.''"
  by (simp add: is_digit_def)

lemma filter_points_nonempty:
  "(filter (\<lambda>c. c \<noteq> CHR ''.'') v \<noteq> []) = (\<exists>c \<in> set v. c \<noteq> CHR ''.'')"
  by (induction v) auto

lemma numeric_test_decimal:
  assumes "isdigit (filter (\<lambda>c. c \<noteq> CHR ''.'') v)" and "\<not> (\<exists>c \<in> set v. is_superscript c)"
  shows "digits_and_points v \<and> (\<exists>c \<in> set v. is_digit c)"
proof -
  have all: "\<forall>c \<in> set (filter (\<lambda>c. c \<noteq> CHR ''.'') v). is_digit c \<or> is_superscript c"
    using assms(1) unfolding isdigit_def list_all_iff by blast
  have mem: "c \<in> set v \<Longrightarrow> c \<noteq> CHR ''.'' \<Longrightarrow> is_digit c" for c
  proof -
    assume a: "c \<in> set v" "c \<noteq> CHR ''.''"
    then have "c \<in> set (filter (\<lambda>c. c \<noteq> CHR ''.'') v)" by simp
    then have "is_digit c \<or> is_superscript c" using all by blast
    then show "is_digit c" using assms(2) a(1) by blast
  qed
  have dp: "digits_and_points v"
    unfolding digits_and_points_def list_all_iff using mem by blast
  have "filter (\<lambda>c. c \<noteq> CHR ''.'') v \<noteq> []" using assms(1) unfolding isdigit_def by blast
  then obtain c where "c \<in> set v" "c \<noteq> CHR ''.''" unfolding filter_points_nonempty by blast
  then have "\<exists>c \<in> set v. is_digit c" using mem by blast
  then show ?thesis using dp by blast
qed

lemma decimal_numeric_test:
  assumes "digits_and_points v" and "\<exists>c \<in> set v. is_digit c"
  shows "isdigit (filter (\<lambda>c. c \<noteq> CHR ''.'') v)"
proof -
  from assms(2) obtain d where d: "d \<in> set v" "is_digit d" by blast
  then have "d \<noteq> CHR ''.''" using point_not_digit by blast
  then have ne: "filter (\<lambda>c. c \<noteq> CHR ''.'') v \<noteq> []"
    unfolding filter_points_nonempty using d(1) by blast
  have "c \<in> set v \<Longrightarrow> is_digit c \<or> c = CHR ''.''" for c
    using assms(1) unfolding digits_and_points_def list_all_iff by blast
  then have "\<forall>c \<in> set (filter (\<lambda>c. c \<noteq> CHR ''.'') v). is_digit c \<or> is_superscript c"
    by auto
  then show ?thesis unfolding isdigit_def list_all_iff using ne by blast
qed

lemma filter_no_point: "CHR ''.'' \<notin> set v \<Longrightarrow> filter (\<lambda>c. c \<noteq> CHR ''.'') v = v"
  by (induction v) auto

lemma count_points_pos: "CHR ''.'' \<in> set v \<longleftrightarrow> 0 < count_points v"
  by (induction v) (auto simp: count_points_def)

text \<open>
  Claim C6, as the code has it. For every value token except those that pass the numeric
  test and that \<^verbatim>\<open>float\<close> or \<^verbatim>\<open>int\<close> then reject (digits with two or more
  points, a superscript digit, an integer of more than 4300 digits), the load-time
  coercion returns without raising, and its result follows these rules in order, first
  match wins: \<open>true\<close>/\<open>false\<close> in any letter case is a boolean; a token of digits and
  at most one point, with at least one digit, is numeric (a float if a point is present,
  else an integer); a token with commas is the list of its trimmed pieces; anything else
  stays a string.
\<close>

theorem config_coercion:
  assumes "\<not> rejected_number v"
  shows "coerce_value v = Inr (coerce_policy v)"
proof (cases "lower v = ''true'' \<or> lower v = ''false''")
  case True
  then show ?thesis by (auto simp: coerce_value_def coerce_policy_def)
next
  case nb: False
  show ?thesis
  proof (cases "isdigit (filter (\<lambda>c. c \<noteq> CHR ''.'') v)")
    case num: True
    with assms have le: "count_points v \<le> 1"
      and ns: "\<not> (\<exists>c \<in> set v. is_superscript c)"
      and short: "count_points v = 0 \<Longrightarrow> length v \<le> 4300"
      by (auto simp: rejected_number_def)
    have dp: "digits_and_points v" "\<exists>c \<in> set v. is_digit c"
      using numeric_test_decimal[OF num ns] by blast+
    show ?thesis
    proof (cases "CHR ''.'' \<in> set v")
      case True
      then have "count_points v = 1" using le count_points_pos[of v] by simp
      then show ?thesis using nb num dp True
        by (simp add: coerce_value_def coerce_policy_def py_float_token_def count_points_def
              digits_and_points_def)
    next
      case False
      then have z: "count_points v = 0" using count_points_pos[of v] by simp
      have f: "filter (\<lambda>c. c \<noteq> CHR ''.'') v = v" using filter_no_point[OF False] .
      have "list_all is_digit v"
        using dp(1) False unfolding digits_and_points_def list_all_iff by blast
      moreover have "v \<noteq> []" using dp(2) by auto
      ultimately have "py_int_str v = Inr (int (digits_val v))"
        using short[OF z] by (intro py_int_str_digits)
      then show ?thesis using nb num dp False z
        by (simp add: coerce_value_def coerce_policy_def)
    qed
  next
    case False
    then have "\<not> (digits_and_points v \<and> (\<exists>c \<in> set v. is_digit c))"
      using decimal_numeric_test by blast
    then show ?thesis using nb False
      by (auto simp: coerce_value_def coerce_policy_def)
  qed
qed

text \<open>The theorem at the token \<open>1.5\<close>, which becomes a float.\<close>

theorem config_coercion_witness:
  "\<not> rejected_number ''1.5'' \<and> coerce_value ''1.5'' = Inr (CfgFloat ''1.5'')"
proof -
  have h: "\<not> rejected_number ''1.5''" by code_simp
  have p: "coerce_policy ''1.5'' = CfgFloat ''1.5''" by code_simp
  show ?thesis using h config_coercion[OF h] p by simp
qed

text \<open>
  Claim C6 as stated fails at two tokens. \<open>True\<close> is not the literal \<open>true\<close>, has no
  digits and no commas, so the stated rules keep it a string; the code makes it a boolean.
  \<open>1.2.3\<close> passes the numeric test and then \<^verbatim>\<open>float\<close> raises, so loading a file
  with the line \<open>version=1.2.3\<close> raises \<^verbatim>\<open>RuntimeError\<close>.
\<close>

theorem config_coercion_counterexample:
  "coerce_value ''True'' = Inr (CfgBool True) \<and> coerce_spec ''True'' = CfgStr ''True''
   \<and> coerce_value ''1.2.3'' = Inl ValueError \<and> coerce_spec ''1.2.3'' = CfgStr ''1.2.3''
   \<and> load_config [''version=1.2.3''] = Inl RuntimeError"
proof -
  have a: "coerce_value ''True'' = Inr (CfgBool True)" by code_simp
  have b: "coerce_spec ''True'' = CfgStr ''True''" by code_simp
  have c: "coerce_value ''1.2.3'' = Inl ValueError" by code_simp
  have d: "coerce_spec ''1.2.3'' = CfgStr ''1.2.3''" by code_simp
  have s: "strip ''version=1.2.3'' = ''version=1.2.3''" by code_simp
  have s2: "strip ''1.2.3'' = ''1.2.3''" by code_simp
  have e: "load_config [''version=1.2.3''] = Inl RuntimeError"
    by (simp add: load_config_def Let_def s s2 c starts_with_hash_def split_once_def)
  show ?thesis using a b c d e by simp
qed

text \<open>
  Two more values of the primitives: the token made of the superscript two passes
  \<^verbatim>\<open>isdigit\<close> and \<^verbatim>\<open>int\<close> rejects it; \<^verbatim>\<open>int\<close> strips a leading no-break space.
\<close>

lemma superscript_token: "coerce_value [char_of (178 :: nat)] = Inl ValueError"
  by code_simp

lemma nbsp_int: "py_int_str [char_of (160 :: nat), CHR ''1'', CHR ''2''] = Inr 12"
  by code_simp

subsection \<open>Manual anchors\<close>

lemma scan_lines_find:
  "scan_lines lines sid =
     (case find (anchor_line_for sid) lines of
        None \<Rightarrow> Inr None
      | Some l \<Rightarrow>
          (case parse_coords (snd (split_once CHR ''='' (strip l))) of
             Inl e \<Rightarrow> Inl e
           | Inr xyz \<Rightarrow> Inr (Some xyz)))"
  by (induction lines) (auto simp: anchor_line_for_def Let_def split: prod.splits sum.splits)

text \<open>
  Claim C7, as the code has it. The resolver ignores blank lines and lines beginning
  with \<open>#\<close>, takes the first line whose left-hand side before \<open>=\<close> is the subject
  identifier (later duplicates are shadowed) and returns the three comma-separated
  integers of its right-hand side. When no line matches, and also when the matched
  right-hand side is not exactly three integers, it returns the same \<^verbatim>\<open>None\<close>.
\<close>

theorem manual_anchor_resolution:
  "load_manual_coordinates lines subject =
     (case resolve_anchor_spec lines (subject_str subject) of
        Inl err \<Rightarrow> None
      | Inr xyz \<Rightarrow> Some xyz)"
  by (simp add: load_manual_coordinates_def resolve_anchor_spec_def scan_lines_find
           split: option.splits sum.splits)

text \<open>
  Claim C7 as stated asks for two distinct errors. A file without a line for subject 12
  and a file whose line for subject 12 has two integers give the same result.
\<close>

theorem manual_anchor_counterexample:
  "resolve_anchor_spec [] (subject_str (SubjInt 12)) = Inl AnchorNotFound
   \<and> resolve_anchor_spec [''12=1,2''] (subject_str (SubjInt 12)) = Inl AnchorMalformed
   \<and> load_manual_coordinates [] (SubjInt 12) = None
   \<and> load_manual_coordinates [''12=1,2''] (SubjInt 12) = None"
  by code_simp

subsection \<open>Resume pruning\<close>

lemma process_subjects_called:
  "fst (snd (process_subjects proc dry_run subjects n called files)) = called @ subjects"
  by (induction subjects arbitrary: n called files) (auto split: prod.splits bool.splits)

lemma filter_not_in_filter: "filter (\<lambda>s. s \<notin> set (filter P xs)) xs = filter (\<lambda>s. \<not> P s) xs"
  by (rule filter_cong) auto

lemma filter_none: "filter P xs = [] \<Longrightarrow> filter (\<lambda>s. \<not> P s) xs = xs"
  by (induction xs) (auto split: if_splits)

lemma check_existing_outputs_filter:
  "check_existing_outputs cfg subjects (step_suffix st) files = filter (has_output cfg st files) subjects"
  unfolding check_existing_outputs_def has_output_def by (rule refl)

lemma pruned_subjects:
  "(let existing = check_existing_outputs cfg subjects (step_suffix st) files
    in if existing \<noteq> [] then filter (\<lambda>s. s \<notin> set existing) subjects else subjects)
   = filter (\<lambda>s. \<not> has_output cfg st files s) subjects"
proof (cases "filter (has_output cfg st files) subjects = []")
  case True
  then show ?thesis
    unfolding check_existing_outputs_filter Let_def using filter_none[OF True] by simp
next
  case False
  then show ?thesis
    unfolding check_existing_outputs_filter Let_def using filter_not_in_filter[of "has_output cfg st files" subjects] by simp
qed

lemma base_execute_attempted:
  "attempted (base_execute cfg (step_suffix st) proc subjects force dry_run files) =
     (if force then subjects else filter (\<lambda>s. \<not> has_output cfg st files s) subjects)"
proof -
  have a: "attempted (case process_subjects proc dry_run xs 0 [] fl of
             (success_count, called, files2) \<Rightarrow>
               \<lparr>ok = (success_count = length xs), attempted = called, files_after = files2\<rparr>) = xs" for xs fl
    using process_subjects_called[of proc dry_run xs 0 "[]" fl]
    by (cases "process_subjects proc dry_run xs 0 [] fl") auto
  show ?thesis
    unfolding base_execute_def pruned_subjects
    by (simp add: Let_def a)
qed

lemma str6966: "str_int 6966 = ''6966''" by (simp add: str_int_def digit_char_def)

lemma example_kernel_output: "has_output example_config Kernel example_files (SubjInt 6966)"
  by (simp add: has_output_def get_subject_step_dir_def get_subject_output_dir_def str6966
        example_config_def example_files_def path_exists_def any_iterdir_def)

lemma example_mni_output: "has_output example_config MNI example_files (SubjInt 6966)"
  by (simp add: has_output_def get_subject_step_dir_def get_subject_output_dir_def str6966
        example_config_def example_files_def path_exists_def any_iterdir_def)

lemma mni_execute_attempted:
  "attempted (mni_execute proc subjects force dry_run files) = subjects"
  using process_subjects_called[of proc dry_run subjects 0 "[]" files]
  by (cases "process_subjects proc dry_run subjects 0 [] files") (auto simp: mni_execute_def)

text \<open>
  Claim C8, as the code has it. For every subject list and every stage other than
  \<open>mni\<close>: with force, every subject is run and none is skipped; without force, exactly
  the subjects whose stage output directory exists and has an entry are pruned, and when
  all are pruned the stage returns success at once, with no per-subject work and the
  file system untouched. The \<open>mni\<close> stage never prunes: it runs every subject of the
  list, whatever force is.
\<close>

theorem resume_pruning_and_force:
  "(st \<noteq> MNI \<longrightarrow>
      (force \<longrightarrow> attempted (stage_execute st cfg proc subjects force dry_run files) = subjects)
    \<and> (\<not> force \<longrightarrow> attempted (stage_execute st cfg proc subjects force dry_run files)
                         = filter (\<lambda>s. \<not> has_output cfg st files s) subjects)
    \<and> (\<not> force \<and> (\<forall>s \<in> set subjects. has_output cfg st files s) \<longrightarrow>
            stage_execute st cfg proc subjects force dry_run files
              = \<lparr>ok = True, attempted = [], files_after = files\<rparr>))
   \<and> attempted (stage_execute MNI cfg proc subjects force dry_run files) = subjects"
proof -
  have mni: "attempted (stage_execute MNI cfg proc subjects force dry_run files) = subjects"
    by (simp add: stage_execute_def mni_execute_attempted)
  have base: "(force \<longrightarrow> attempted (stage_execute st cfg proc subjects force dry_run files) = subjects)
    \<and> (\<not> force \<longrightarrow> attempted (stage_execute st cfg proc subjects force dry_run files)
                         = filter (\<lambda>s. \<not> has_output cfg st files s) subjects)
    \<and> (\<not> force \<and> (\<forall>s \<in> set subjects. has_output cfg st files s) \<longrightarrow>
            stage_execute st cfg proc subjects force dry_run files
              = \<lparr>ok = True, attempted = [], files_after = files\<rparr>)" if st: "st \<noteq> MNI"
  proof -
    have e: "stage_execute st cfg proc subjects force dry_run files
             = base_execute cfg (step_suffix st) proc subjects force dry_run files"
      using st by (simp add: stage_execute_def)
    have all: "\<not> force \<Longrightarrow> \<forall>s \<in> set subjects. has_output cfg st files s \<Longrightarrow>
          base_execute cfg (step_suffix st) proc subjects force dry_run files
                = \<lparr>ok = True, attempted = [], files_after = files\<rparr>"
    proof -
      assume nf: "\<not> force" and h: "\<forall>s \<in> set subjects. has_output cfg st files s"
      have "filter (\<lambda>s. \<not> has_output cfg st files s) subjects = []" using h by (simp add: filter_empty_conv)
      then show ?thesis unfolding base_execute_def pruned_subjects using nf by simp
    qed
    show ?thesis unfolding e using base_execute_attempted[of cfg st proc subjects force dry_run files] all by auto
  qed
  show ?thesis using mni base by blast
qed

text \<open>
  The theorem for the kernel stage and subject 6966, whose kernel output exists: with
  force the subject is run, without force it is pruned and the stage succeeds at once.
  The \<open>mni\<close> stage runs the subject without force although its output exists.
\<close>

theorem resume_pruning_and_force_witness:
  "Kernel \<noteq> MNI
   \<and> attempted (stage_execute Kernel example_config always_ok [SubjInt 6966] True False example_files)
       = [SubjInt 6966]
   \<and> has_output example_config Kernel example_files (SubjInt 6966)
   \<and> stage_execute Kernel example_config always_ok [SubjInt 6966] False False example_files
       = \<lparr>ok = True, attempted = [], files_after = example_files\<rparr>
   \<and> attempted (stage_execute MNI example_config always_ok [SubjInt 6966] False False example_files)
       = [SubjInt 6966]"
proof -
  have h: "Kernel \<noteq> MNI" by simp
  have a: "\<forall>s \<in> set [SubjInt 6966]. has_output example_config Kernel example_files s"
    using example_kernel_output by simp
  show ?thesis
    using h a example_kernel_output
      resume_pruning_and_force[of Kernel True example_config always_ok "[SubjInt 6966]" False example_files]
      resume_pruning_and_force[of Kernel False example_config always_ok "[SubjInt 6966]" False example_files]
    by simp
qed

text \<open>
  Claim C8 as stated covers every stage. The \<open>mni\<close> stage has its own
  \<^verbatim>\<open>execute\<close>, which never prunes: without force, subject 6966 is run although its
  MNI output directory exists and has an entry.
\<close>

theorem resume_pruning_counterexample:
  "has_output example_config MNI example_files (SubjInt 6966)
   \<and> attempted (stage_execute MNI example_config always_ok [SubjInt 6966] False False example_files)
       = [SubjInt 6966]"
  using example_mni_output by (simp add: stage_execute_def mni_execute_def always_ok_def)

subsection \<open>Kernel step\<close>

lemma kernel_int_subject:
  "kernel_process_subject cfg apply_kernel (SubjInt n) dry_run files = (False, files)"
  by (simp add: kernel_process_subject_def)

lemma mkdir_p_keeps: "path_exists files p \<Longrightarrow> path_exists (mkdir_p d files) p"
  by (simp add: path_exists_def mkdir_p_def)

lemma kernel_skip_existing_output:
  assumes "path_exists files (kernel_output_file cfg sid)"
  shows "kernel_process_subject cfg apply_kernel (SubjStr sid) False files
         = (True, mkdir_p (output_base cfg @ [sid, sid @ ''_kernel'']) files)"
proof -
  have "path_exists (mkdir_p (output_base cfg @ [sid, sid @ ''_kernel'']) files)
          (output_base cfg @ [sid, sid @ ''_kernel'', sid @ ''_QNP_AT8_smoothed_sig2.nii.gz''])"
    using mkdir_p_keeps[OF assms] by (simp add: kernel_output_file_def)
  then show ?thesis
    by (simp add: kernel_process_subject_def Let_def)
qed

text \<open>
  Claim C9 at a subject identifier that is an integer, as \<^verbatim>\<open>--subjects 6966\<close> gives
  it. The kernel output file of subject 6966 exists and force is set; the step builds its
  paths with \<^verbatim>\<open>Path(...) / subject_id\<close>, which raises for an integer, so the
  subject is reported as failed, where the claim says it is reported as succeeded.
\<close>

theorem kernel_skip_integer_subject:
  "path_exists example_files (kernel_output_file example_config (subject_str (SubjInt 6966)))
   \<and> ok (stage_execute Kernel example_config (kernel_process_subject example_config apply_kernel_ok)
           [SubjInt 6966] True False example_files) = False
   \<and> attempted (stage_execute Kernel example_config (kernel_process_subject example_config apply_kernel_ok)
           [SubjInt 6966] True False example_files) = [SubjInt 6966]"
  by (simp add: stage_execute_def base_execute_def kernel_int_subject Let_def
        path_exists_def kernel_output_file_def example_files_def example_config_def str6966)

subsection \<open>Annotation join\<close>

text \<open>
  Claim C10. If the body that builds the joined processed file raises, the processed
  file is a copy of the raw coordinate file, and the extraction step, run on existing
  inputs with at least one coordinate, still reports the subject as succeeded.
\<close>

theorem join_failure_fallback:
  assumes "join_body (tiles_csv inp) (at8_csv inp) = Inl e"
      and "annotation_exists inp" and "summary_exists inp" and "coordinates inp \<noteq> []"
  shows "create_processed_file (tiles_csv inp) (at8_csv inp) = CopyOfCoordFile
       \<and> extract_process_subject inp False = (True, Some CopyOfCoordFile)"
  using assms by (simp add: create_processed_file_def extract_process_subject_def)

text \<open>
  The theorem at a coordinate table whose first \<open>X\<close> field is the text \<open>abc\<close>:
  \<^verbatim>\<open>int\<close> raises \<^verbatim>\<open>ValueError\<close>.
\<close>

theorem join_failure_fallback_witness:
  "join_body (tiles_csv unparsable_inputs) (at8_csv unparsable_inputs) = Inl ValueError
   \<and> annotation_exists unparsable_inputs \<and> summary_exists unparsable_inputs \<and> coordinates unparsable_inputs \<noteq> []
   \<and> create_processed_file (tiles_csv unparsable_inputs) (at8_csv unparsable_inputs) = CopyOfCoordFile
   \<and> extract_process_subject unparsable_inputs False = (True, Some CopyOfCoordFile)"
proof -
  have a: "join_body (tiles_csv unparsable_inputs) (at8_csv unparsable_inputs) = Inl ValueError" by code_simp
  have b: "annotation_exists unparsable_inputs" by (simp add: unparsable_inputs_def)
  have c: "summary_exists unparsable_inputs" by (simp add: unparsable_inputs_def)
  have d: "coordinates unparsable_inputs \<noteq> []" by (simp add: unparsable_inputs_def)
  show ?thesis using a b c d join_failure_fallback[OF a b c d] by simp
qed

text \<open>
  Claim C5 at a subject with two coordinates and no measurement. The claim has the
  joiner emit one TileRecord per coordinate with value 0. The code writes the coordinate
  table as it is, with one more column \<open>AT8\<close> set to 0: the columns are \<open>Name\<close>,
  \<open>X\<close>, \<open>Y\<close>, \<open>AT8\<close> and the coordinates are not divided by 1000, where the join
  loop writes \<open>Tile\<close>, \<open>X\<close>, \<open>Z\<close>, \<open>AT8\<close> with the divided values. The extraction
  step reports success; the builder then raises \<^verbatim>\<open>KeyError\<close> at \<^verbatim>\<open>row['Tile']\<close>.
\<close>

theorem empty_measurement_rows_unreadable:
  "join_body (Inr two_coordinates) (Inr no_measurements)
       = Inr \<lparr>columns = [''Name'', ''X'', ''Y'', ''AT8''],
              rows = [[CStr ''Tile 1'', CInt 1000, CInt 2000, CInt 0],
                      [CStr ''Tile 1'', CInt 3000, CInt 2000, CInt 0]]\<rparr>
   \<and> extract_process_subject no_measurement_inputs False
       = (True, Some (Written \<lparr>columns = [''Name'', ''X'', ''Y'', ''AT8''],
              rows = [[CStr ''Tile 1'', CInt 1000, CInt 2000, CInt 0],
                      [CStr ''Tile 1'', CInt 3000, CInt 2000, CInt 0]]\<rparr>))
   \<and> stamp_table (20, 20, 20) (0, 10, 0) 7
        (read_back \<lparr>columns = [''Name'', ''X'', ''Y'', ''AT8''],
              rows = [[CStr ''Tile 1'', CInt 1000, CInt 2000, CInt 0],
                      [CStr ''Tile 1'', CInt 3000, CInt 2000, CInt 0]]\<rparr>) = Inl KeyError"
proof -
  have j: "join_body (Inr two_coordinates) (Inr no_measurements)
       = Inr \<lparr>columns = [''Name'', ''X'', ''Y'', ''AT8''],
              rows = [[CStr ''Tile 1'', CInt 1000, CInt 2000, CInt 0],
                      [CStr ''Tile 1'', CInt 3000, CInt 2000, CInt 0]]\<rparr>"
    by (simp add: join_body_def no_measurements_def two_coordinates_def set_column_def)
  have e: "extract_process_subject no_measurement_inputs False
       = (True, Some (Written \<lparr>columns = [''Name'', ''X'', ''Y'', ''AT8''],
              rows = [[CStr ''Tile 1'', CInt 1000, CInt 2000, CInt 0],
                      [CStr ''Tile 1'', CInt 3000, CInt 2000, CInt 0]]\<rparr>))"
    using j by (simp add: extract_process_subject_def create_processed_file_def no_measurement_inputs_def)
  have s: "stamp_table (20, 20, 20) (0, 10, 0) 7
        (read_back \<lparr>columns = [''Name'', ''X'', ''Y'', ''AT8''],
              rows = [[CStr ''Tile 1'', CInt 1000, CInt 2000, CInt 0],
                      [CStr ''Tile 1'', CInt 3000, CInt 2000, CInt 0]]\<rparr>) = Inl KeyError"
    by (simp add: stamp_table_def read_back_def read_tile_row_def get_field_def)
  show ?thesis using j e s by simp
qed


lemma join_loop_append:
  "join_loop t a (xs @ ys) tc =
     (case join_loop t a xs tc of Inl e \<Rightarrow> Inl e | Inr tc' \<Rightarrow> join_loop t a ys tc')"
  by (induction xs arbitrary: tc) (auto split: sum.splits)

lemma join_row_filled:
  assumes "5 * i < length (rows t)" and "i < length (rows a)"
      and "3 \<le> length (rows t ! (5 * i))"
      and "\<not> isl (py_int (rows t ! (5 * i) ! 1))" and "\<not> isl (py_int (rows t ! (5 * i) ! 2))"
      and "2 \<le> length (rows a ! i)"
  shows "join_row t a i tc = Inr (tc[i := joined_row t a i])"
proof -
  from assms(4) obtain x where x: "py_int (rows t ! (5 * i) ! 1) = Inr x"
    by (cases "py_int (rows t ! (5 * i) ! 1)") auto
  from assms(5) obtain z where z: "py_int (rows t ! (5 * i) ! 2) = Inr z"
    by (cases "py_int (rows t ! (5 * i) ! 2)") auto
  have i0: "iloc t (5 * i) 0 = Inr (rows t ! (5 * i) ! 0)"
    and i1: "iloc t (5 * i) 1 = Inr (rows t ! (5 * i) ! 1)"
    and i2: "iloc t (5 * i) 2 = Inr (rows t ! (5 * i) ! 2)"
    using assms(1,3) by (auto simp: iloc_def)
  have i3: "iloc a i 1 = Inr (rows a ! i ! 1)"
    using assms(2,6) by (auto simp: iloc_def)
  show ?thesis
    using assms(1) i0 i1 i2 i3 x z by (simp add: join_row_def Let_def joined_row_def)
qed

lemma join_row_skipped:
  assumes "\<not> 5 * i < length (rows t)"
  shows "join_row t a i tc = Inr tc" and "joined_row t a i = [CNone, CNone, CNone, CNone]"
  using assms by (simp_all add: join_row_def Let_def joined_row_def)

lemma join_loop_prefix:
  assumes "n \<le> length (rows a)" and "\<forall>i < n. good_index t a i"
  shows "join_loop t a [0..<n] (replicate (length (rows a)) [CNone, CNone, CNone, CNone])
         = Inr (map (joined_row t a) [0..<n] @ replicate (length (rows a) - n) [CNone, CNone, CNone, CNone])"
  using assms
proof (induction n)
  case 0
  then show ?case by simp
next
  case (Suc n)
  let ?m = "length (rows a)"
  let ?b = "[CNone, CNone, CNone, CNone]"
  let ?tc = "map (joined_row t a) [0..<n] @ replicate (?m - n) ?b"
  have ih: "join_loop t a [0..<n] (replicate ?m ?b) = Inr ?tc"
    using Suc by simp
  have nm: "n < ?m" using Suc.prems(1) by simp
  have rep: "replicate (?m - n) ?b = ?b # replicate (?m - Suc n) ?b"
    using nm by (metis Suc_diff_Suc replicate_Suc)
  have upd: "?tc[n := r] = map (joined_row t a) [0..<n] @ r # replicate (?m - Suc n) ?b" for r
    by (subst rep) (simp add: list_update_append)
  have g: "good_index t a n" using Suc.prems(2) by simp
  have step: "join_row t a n ?tc = Inr (map (joined_row t a) [0..<n] @ joined_row t a n # replicate (?m - Suc n) ?b)"
  proof (cases "5 * n < length (rows t)")
    case True
    then have "join_row t a n ?tc = Inr (?tc[n := joined_row t a n])"
      using g nm by (intro join_row_filled) (simp_all add: good_index_def)
    then show ?thesis by (simp only: upd)
  next
    case False
    have "join_row t a n ?tc = Inr ?tc" using False by (rule join_row_skipped(1))
    moreover have "?tc = map (joined_row t a) [0..<n] @ joined_row t a n # replicate (?m - Suc n) ?b"
      by (subst rep) (simp add: join_row_skipped(2)[OF False])
    ultimately show ?thesis by simp
  qed
  have "join_loop t a [0..<Suc n] (replicate ?m ?b) = join_loop t a ([0..<n] @ [n]) (replicate ?m ?b)"
    by simp
  also have "\<dots> = join_loop t a [n] ?tc"
    by (simp only: join_loop_append ih sum.case)
  also have "\<dots> = Inr (map (joined_row t a) [0..<n] @ joined_row t a n # replicate (?m - Suc n) ?b)"
    using step by simp
  also have "\<dots> = Inr (map (joined_row t a) [0..<Suc n] @ replicate (?m - Suc n) ?b)"
    by simp
  finally show ?case .
qed

lemma populated_count:
  "length (filter (\<lambda>i. 5 * i < c) [0..<m]) = min m ((c + 4) div 5)"
proof (induction m)
  case 0
  then show ?case by simp
next
  case (Suc m)
  show ?case
  proof (cases "5 * m < c")
    case True
    then have "Suc m \<le> (c + 4) div 5" by arith
    then show ?thesis using Suc True by (simp add: min_def)
  next
    case False
    then have "(c + 4) div 5 \<le> m" by arith
    then show ?thesis using Suc False by (simp add: min_def)
  qed
qed

text \<open>
  What the join writes for a non-empty measurement table of \<open>m\<close> rows and a coordinate
  table of \<open>c\<close> rows on which the conversions succeed: exactly \<open>m\<close> rows, row \<open>i\<close>
  built from \<open>coords[5*i]\<close> and \<open>measurements[i]\<close> when \<open>5*i < c\<close> and left as
  allocated, four \<^verbatim>\<open>None\<close> cells, otherwise; \<open>min(m, ceil(c/5))\<close> of them are
  populated.
\<close>

lemma join_rows_written:
  assumes "rows df_at8 \<noteq> []" and "joinable df_tiles df_at8"
  shows "join_body (Inr df_tiles) (Inr df_at8)
           = Inr \<lparr>columns = [''Tile'', ''X'', ''Z'', ''AT8''],
                  rows = map (joined_row df_tiles df_at8) [0..<length (rows df_at8)]\<rparr>
       \<and> length (filter (\<lambda>i. 5 * i < length (rows df_tiles)) [0..<length (rows df_at8)])
           = min (length (rows df_at8)) ((length (rows df_tiles) + 4) div 5)"
proof -
  have "\<forall>i < length (rows df_at8). good_index df_tiles df_at8 i"
    using assms(2) by (simp add: joinable_def list_all_iff)
  then have "join_loop df_tiles df_at8 [0..<length (rows df_at8)]
               (replicate (length (rows df_at8)) [CNone, CNone, CNone, CNone])
             = Inr (map (joined_row df_tiles df_at8) [0..<length (rows df_at8)])"
    using join_loop_prefix[of "length (rows df_at8)" df_at8 df_tiles] by simp
  then have "join_body (Inr df_tiles) (Inr df_at8)
           = Inr \<lparr>columns = [''Tile'', ''X'', ''Z'', ''AT8''],
                  rows = map (joined_row df_tiles df_at8) [0..<length (rows df_at8)]\<rparr>"
    using assms(1) by (simp add: join_body_def Let_def)
  then show ?thesis using populated_count by simp
qed

lemma six_three_rows:
  "map (joined_row six_coordinates three_measurements) [0..<length (rows three_measurements)]
   = [[CStr ''Tile 1'', CInt 12, CInt 6, CFloat (5 / 2)],
      [CStr ''Tile 2'', CInt (- 1), CInt 2, CFloat 3],
      [CNone, CNone, CNone, CNone]]"
  by code_simp

text \<open>
  Six coordinates and three measurements: rows 0 and 1 come from coordinates 0 and 5,
  row 2 is blank.
\<close>

lemma join_rows_written_example:
  "rows three_measurements \<noteq> [] \<and> joinable six_coordinates three_measurements
   \<and> join_body (Inr six_coordinates) (Inr three_measurements)
       = Inr \<lparr>columns = [''Tile'', ''X'', ''Z'', ''AT8''],
              rows = [[CStr ''Tile 1'', CInt 12, CInt 6, CFloat (5 / 2)],
                      [CStr ''Tile 2'', CInt (- 1), CInt 2, CFloat 3],
                      [CNone, CNone, CNone, CNone]]\<rparr>
   \<and> min (length (rows three_measurements)) ((length (rows six_coordinates) + 4) div 5) = 2"
proof -
  have h1: "rows three_measurements \<noteq> []" by (simp add: three_measurements_def)
  have h2: "joinable six_coordinates three_measurements" by code_simp
  have m: "min (length (rows three_measurements)) ((length (rows six_coordinates) + 4) div 5) = 2"
    by (simp add: three_measurements_def six_coordinates_def)
  show ?thesis using h1 h2 m join_rows_written[OF h1 h2] by (simp add: six_three_rows)
qed

text \<open>
  Claim C1 at one coordinate and two measurements. The claim has the joiner emit
  \<open>min(2, ceil(1/5)) = 1\<close> record and drop the second measurement silently. The code
  writes two rows, the second one blank; the blank row is read back as missing values,
  and the builder then raises \<^verbatim>\<open>ValueError\<close> at \<^verbatim>\<open>int(original_x)\<close>, which
  fails the subject.
\<close>

theorem unmatched_measurement_blank_row:
  "join_body (Inr one_coordinate) (Inr two_measurements)
       = Inr \<lparr>columns = [''Tile'', ''X'', ''Z'', ''AT8''],
              rows = [[CStr ''Tile 1'', CInt 12, CInt 6, CFloat (5 / 2)],
                      [CNone, CNone, CNone, CNone]]\<rparr>
   \<and> min (length (rows two_measurements)) ((length (rows one_coordinate) + 4) div 5) = 1
   \<and> stamp_table (20, 20, 20) (0, 10, 0) 7
        (read_back \<lparr>columns = [''Tile'', ''X'', ''Z'', ''AT8''],
              rows = [[CStr ''Tile 1'', CInt 12, CInt 6, CFloat (5 / 2)],
                      [CNone, CNone, CNone, CNone]]\<rparr>) = Inl ValueError"
proof -
  have j: "join_body (Inr one_coordinate) (Inr two_measurements)
       = Inr \<lparr>columns = [''Tile'', ''X'', ''Z'', ''AT8''],
              rows = [[CStr ''Tile 1'', CInt 12, CInt 6, CFloat (5 / 2)],
                      [CNone, CNone, CNone, CNone]]\<rparr>
   \<and> min (length (rows two_measurements)) ((length (rows one_coordinate) + 4) div 5) = 1"
    by code_simp
  have s: "stamp_table (20, 20, 20) (0, 10, 0) 7
        (read_back \<lparr>columns = [''Tile'', ''X'', ''Z'', ''AT8''],
              rows = [[CStr ''Tile 1'', CInt 12, CInt 6, CFloat (5 / 2)],
                      [CNone, CNone, CNone, CNone]]\<rparr>) = Inl ValueError"
    by (simp add: stamp_table_def read_back_def read_tile_row_def get_field_def
          stamp_row_def in_bounds_def Let_def)
  show ?thesis using j s by simp
qed

subsection \<open>Voxel blocks\<close>

lemma fold_stamp:
  assumes "\<And>a m p. g a m p = (if p \<in> S a then v else m p)"
  shows "fold g xs m p = (if p \<in> (\<Union>a \<in> set xs. S a) then v else m p)"
  using assms by (induction xs arbitrary: m) auto

lemma in_centered_cube:
  "(px, py, pz) \<in> centered_cube h (x, y, z) \<longleftrightarrow>
     (\<exists>dx \<in> {- h..h}. \<exists>dy \<in> {- h..h}. \<exists>dz \<in> {- h..h}. (px, py, pz) = (x + dx, y + dy, z + dz))"
proof
  assume "(px, py, pz) \<in> centered_cube h (x, y, z)"
  then have a: "\<bar>px - x\<bar> \<le> h" "\<bar>py - y\<bar> \<le> h" "\<bar>pz - z\<bar> \<le> h"
    by (simp_all add: centered_cube_def)
  have "px - x \<in> {- h..h}" "py - y \<in> {- h..h}" "pz - z \<in> {- h..h}" using a by auto
  moreover have "(px, py, pz) = (x + (px - x), y + (py - y), z + (pz - z))" by simp
  ultimately show "\<exists>dx \<in> {- h..h}. \<exists>dy \<in> {- h..h}. \<exists>dz \<in> {- h..h}. (px, py, pz) = (x + dx, y + dy, z + dz)"
    by blast
next
  assume "\<exists>dx \<in> {- h..h}. \<exists>dy \<in> {- h..h}. \<exists>dz \<in> {- h..h}. (px, py, pz) = (x + dx, y + dy, z + dz)"
  then show "(px, py, pz) \<in> centered_cube h (x, y, z)"
    by (auto simp: centered_cube_def)
qed

lemma stamp_block_val:
  "stamp_block shape (x, y, z) block_size v vmask p =
     (if in_bounds shape p \<and> p \<in> centered_cube (block_size div 2) (x, y, z) then v else vmask p)"
proof -
  define h where "h = block_size div 2"
  define S3 where "S3 = (\<lambda>dx dy dz. if in_bounds shape (x + dx, y + dy, z + dz) then {(x + dx, y + dy, z + dz)} else {})"
  define g3 where "g3 = (\<lambda>dx dy dz (m :: voxel \<Rightarrow> 'a).
       let n = (x + dx, y + dy, z + dz) in if in_bounds shape n then m(n := v) else m)"
  have i3: "g3 dx dy dz m q = (if q \<in> S3 dx dy dz then v else m q)" for dx dy dz m q
    by (simp add: g3_def S3_def Let_def)
  have i2: "fold (g3 dx dy) [- h..h] m q = (if q \<in> (\<Union>dz \<in> set [- h..h]. S3 dx dy dz) then v else m q)"
    for dx dy m q
    by (rule fold_stamp) (rule i3)
  have i1: "fold (\<lambda>dy. fold (g3 dx dy) [- h..h]) [- h..h] m q =
       (if q \<in> (\<Union>dy \<in> set [- h..h]. \<Union>dz \<in> set [- h..h]. S3 dx dy dz) then v else m q)"
    for dx m q
    by (rule fold_stamp) (rule i2)
  have i0: "fold (\<lambda>dx. fold (\<lambda>dy. fold (g3 dx dy) [- h..h]) [- h..h]) [- h..h] vmask p =
       (if p \<in> (\<Union>dx \<in> set [- h..h]. \<Union>dy \<in> set [- h..h]. \<Union>dz \<in> set [- h..h]. S3 dx dy dz) then v else vmask p)"
    by (rule fold_stamp) (rule i1)
  have sb: "stamp_block shape (x, y, z) block_size v vmask =
        fold (\<lambda>dx. fold (\<lambda>dy. fold (g3 dx dy) [- h..h]) [- h..h]) [- h..h] vmask"
    by (simp add: stamp_block_def g3_def h_def Let_def)
  obtain px py pz where p: "p = (px, py, pz)" by (cases p) auto
  have "p \<in> (\<Union>dx \<in> set [- h..h]. \<Union>dy \<in> set [- h..h]. \<Union>dz \<in> set [- h..h]. S3 dx dy dz)
        \<longleftrightarrow> in_bounds shape p \<and> p \<in> centered_cube h (x, y, z)"
    unfolding p in_centered_cube S3_def by (auto split: if_splits)
  moreover have "stamp_block shape (x, y, z) block_size v vmask p =
       (if p \<in> (\<Union>dx \<in> set [- h..h]. \<Union>dy \<in> set [- h..h]. \<Union>dz \<in> set [- h..h]. S3 dx dy dz) then v else vmask p)"
    using i0 by (simp only: sb)
  ultimately have "stamp_block shape (x, y, z) block_size v vmask p =
       (if in_bounds shape p \<and> p \<in> centered_cube h (x, y, z) then v else vmask p)"
    by simp
  then show ?thesis by (simp only: h_def)
qed


lemma stamp_row_val:
  assumes "stamp_row shape manual_coords block_size row vmask = Inr vmask'"
  shows "vmask' p = (if covers shape manual_coords block_size row p then AT8 row else vmask p)"
proof -
  obtain xo ys zo where mc: "manual_coords = (xo, ys, zo)" by (cases manual_coords) auto
  from assms obtain ox where ox: "py_int (X row) = Inr ox"
    by (auto simp: stamp_row_def Let_def mc split: sum.splits)
  from assms ox obtain oz where oz: "py_int (Z row) = Inr oz"
    by (auto simp: stamp_row_def Let_def mc split: sum.splits)
  show ?thesis
  proof (cases "in_bounds shape (ox + xo, ys, oz + zo)")
    case True
    then have "vmask' = stamp_block shape (ox + xo, ys, oz + zo) block_size (AT8 row) vmask"
      using assms ox oz by (simp add: stamp_row_def Let_def mc)
    then show ?thesis using True ox oz by (simp add: stamp_block_val covers_def mc)
  next
    case False
    then have "vmask' = vmask" using assms ox oz by (simp add: stamp_row_def Let_def mc)
    then show ?thesis using False ox oz by (simp add: covers_def mc)
  qed
qed

lemma stamp_row_total:
  assumes "\<not> isl (py_int (X row))" and "\<not> isl (py_int (Z row))"
  shows "\<exists>vmask'. stamp_row shape manual_coords block_size row vmask = Inr vmask'"
proof -
  obtain xo ys zo where mc: "manual_coords = (xo, ys, zo)" by (cases manual_coords) auto
  from assms obtain ox oz where "py_int (X row) = Inr ox" "py_int (Z row) = Inr oz"
    by (cases "py_int (X row)"; cases "py_int (Z row)") auto
  then show ?thesis by (simp add: stamp_row_def Let_def mc)
qed

lemma stamp_rows_total:
  assumes "\<forall>r \<in> set df. \<not> isl (py_int (X r)) \<and> \<not> isl (py_int (Z r))"
  shows "\<exists>vmask'. stamp_rows shape manual_coords block_size df vmask = Inr vmask'"
  using assms
proof (induction df arbitrary: vmask)
  case Nil
  then show ?case by simp
next
  case (Cons r df)
  then obtain m1 where "stamp_row shape manual_coords block_size r vmask = Inr m1"
    using stamp_row_total[of r shape manual_coords block_size vmask] by auto
  then show ?case using Cons by simp
qed

lemma transformed_rows_total:
  assumes "\<forall>r \<in> set df. \<not> isl (py_int (X r)) \<and> \<not> isl (py_int (Z r))"
  shows "\<exists>td. transformed_rows manual_coords df = Inr td"
  using assms
proof (induction df)
  case Nil
  then show ?case by simp
next
  case (Cons r df)
  obtain xo ys zo where mc: "manual_coords = (xo, ys, zo)" by (cases manual_coords) auto
  from Cons obtain ox oz where "py_int (X r) = Inr ox" "py_int (Z r) = Inr oz"
    by (cases "py_int (X r)"; cases "py_int (Z r)") auto
  moreover from Cons obtain td where "transformed_rows manual_coords df = Inr td" by auto
  ultimately show ?case by (simp add: mc)
qed

lemma stamp_rows_skip:
  assumes "stamp_rows shape manual_coords block_size df vmask = Inr vmask'"
      and "\<forall>r \<in> set df. \<not> covers shape manual_coords block_size r p"
  shows "vmask' p = vmask p"
  using assms
proof (induction df arbitrary: vmask)
  case Nil
  then show ?case by simp
next
  case (Cons r df)
  from Cons.prems(1) obtain m1 where m1: "stamp_row shape manual_coords block_size r vmask = Inr m1"
      and rest: "stamp_rows shape manual_coords block_size df m1 = Inr vmask'"
    by (auto split: sum.splits)
  have "m1 p = vmask p" using stamp_row_val[OF m1, of p] Cons.prems(2) by simp
  moreover have "vmask' p = m1 p" using Cons.IH[OF rest] Cons.prems(2) by simp
  ultimately show ?case by simp
qed

lemma stamp_rows_last:
  assumes "stamp_rows shape manual_coords block_size (pre @ b # post) vmask = Inr vmask'"
      and "covers shape manual_coords block_size b p"
      and "\<forall>r \<in> set post. \<not> covers shape manual_coords block_size r p"
  shows "vmask' p = AT8 b"
  using assms
proof (induction pre arbitrary: vmask)
  case Nil
  from Nil(1) obtain m1 where m1: "stamp_row shape manual_coords block_size b vmask = Inr m1"
      and rest: "stamp_rows shape manual_coords block_size post m1 = Inr vmask'"
    by (auto split: sum.splits)
  have "m1 p = AT8 b" using stamp_row_val[OF m1, of p] Nil(2) by simp
  moreover have "vmask' p = m1 p" using stamp_rows_skip[OF rest Nil(3)] .
  ultimately show ?case by simp
next
  case (Cons r pre)
  from Cons.prems(1) obtain m1 where "stamp_rows shape manual_coords block_size (pre @ b # post) m1 = Inr vmask'"
    by (auto split: sum.splits)
  then show ?case using Cons.IH Cons.prems by blast
qed

lemma stamp_rows_outside:
  assumes "stamp_rows shape manual_coords block_size df vmask = Inr vmask'"
      and "\<not> in_bounds shape p"
  shows "vmask' p = vmask p"
proof -
  have "\<forall>r \<in> set df. \<not> covers shape manual_coords block_size r p"
    using assms(2) by (auto simp: covers_def split: prod.splits sum.splits)
  then show ?thesis using stamp_rows_skip[OF assms(1)] by blast
qed

lemma create_3d_blocks_mask:
  assumes "create_3d_blocks shape manual_coords block_size df = Inr (vmask, td)"
  shows "stamp_rows shape manual_coords block_size df (\<lambda>_. 0) = Inr vmask"
  using assms by (auto simp: create_3d_blocks_def split: sum.splits)

lemma create_3d_blocks_total:
  assumes "\<forall>r \<in> set df. \<not> isl (py_int (X r)) \<and> \<not> isl (py_int (Z r))"
  shows "\<exists>vmask td. create_3d_blocks shape manual_coords block_size df = Inr (vmask, td)"
proof -
  obtain m where "stamp_rows shape manual_coords block_size df (\<lambda>_. 0) = Inr m"
    using stamp_rows_total[OF assms] by blast
  moreover obtain td where "transformed_rows manual_coords df = Inr td"
    using transformed_rows_total[OF assms] by blast
  ultimately show ?thesis by (simp add: create_3d_blocks_def)
qed

lemma centered_is_spec_odd: "odd block_size \<Longrightarrow> centered_cube (block_size div 2) c = spec_cube block_size c"
proof -
  assume "odd block_size"
  then obtain h where "block_size = 2 * h + 1" by (auto elim: oddE)
  then show ?thesis by (cases c) (auto simp: centered_cube_def spec_cube_def)
qed

lemma centered_is_spec_even: "even block_size \<Longrightarrow> centered_cube (block_size div 2) c = spec_cube (block_size + 1) c"
proof -
  assume "even block_size"
  then obtain h where "block_size = 2 * h" by (auto elim: evenE)
  then show ?thesis by (cases c) (auto simp: centered_cube_def spec_cube_def)
qed

lemma record_a_covers: "covers (20, 20, 20) (0, 10, 0) 7 record_a (10, 10, 10)"
  by (simp add: covers_def record_a_def in_bounds_def centered_cube_def)

lemma record_b_covers: "covers (20, 20, 20) (0, 10, 0) 7 record_b (10, 10, 10)"
  by (simp add: covers_def record_b_def in_bounds_def centered_cube_def)

text \<open>
  Claim C2, as the code has it. For every in-bounds row, stamping succeeds and writes the
  row's value to exactly the voxels inside the image that lie in the cube centered at
  \<open>(x, y, z)\<close> with half-extent \<open>blockSize // 2\<close> on every axis, leaving every other
  voxel as it was. For odd \<open>blockSize\<close> this is the cube of side \<open>blockSize\<close>,
  exactly centered. For even \<open>blockSize\<close> it is the cube of side \<open>blockSize + 1\<close>,
  exactly centered too: there is no bias toward either side.
\<close>

theorem block_stamping_geometry:
  assumes "py_int (X row) = Inr original_x" and "py_int (Z row) = Inr original_z"
      and "in_bounds shape (original_x + x_offset, y_slice, original_z + z_offset)"
  shows "\<exists>vmask'. stamp_row shape (x_offset, y_slice, z_offset) block_size row vmask = Inr vmask'
       \<and> (\<forall>p. vmask' p =
             (if in_bounds shape p
                 \<and> p \<in> centered_cube (block_size div 2) (original_x + x_offset, y_slice, original_z + z_offset)
              then AT8 row else vmask p))
       \<and> (odd block_size \<longrightarrow>
             centered_cube (block_size div 2) (original_x + x_offset, y_slice, original_z + z_offset)
               = spec_cube block_size (original_x + x_offset, y_slice, original_z + z_offset))
       \<and> (even block_size \<longrightarrow>
             centered_cube (block_size div 2) (original_x + x_offset, y_slice, original_z + z_offset)
               = spec_cube (block_size + 1) (original_x + x_offset, y_slice, original_z + z_offset))"
proof -
  have "stamp_row shape (x_offset, y_slice, z_offset) block_size row vmask
        = Inr (stamp_block shape (original_x + x_offset, y_slice, original_z + z_offset) block_size (AT8 row) vmask)"
    using assms by (simp add: stamp_row_def Let_def)
  then show ?thesis
    using centered_is_spec_odd centered_is_spec_even by (simp add: stamp_block_val)
qed

text \<open>
  The theorem at the example row \<open>record_a\<close>, whose center is \<open>(9, 10, 10)\<close>, with block
  size 7: corners of the cube hold the value 5, the voxels one step beyond it stay 0.
  The last conjunct is the even case at block size 4.
\<close>

theorem block_stamping_geometry_witness:
  "py_int (X record_a) = Inr 9 \<and> py_int (Z record_a) = Inr 10
   \<and> in_bounds (20, 20, 20) (9 + 0, 10, 10 + 0)
   \<and> (case stamp_row (20, 20, 20) (0, 10, 0) 7 record_a (\<lambda>_. 0) of
         Inl e \<Rightarrow> False
       | Inr vmask \<Rightarrow> vmask (12, 13, 7) = 5 \<and> vmask (6, 7, 13) = 5 \<and> vmask (13, 10, 10) = 0 \<and> vmask (5, 10, 10) = 0)
   \<and> centered_cube (7 div 2) (9 + 0, 10, 10 + 0) = spec_cube 7 (9 + 0, 10, 10 + 0)
   \<and> centered_cube (4 div 2) (9 + 0, 10, 10 + 0) = spec_cube (4 + 1) (9 + 0, 10, 10 + 0)"
proof -
  have h1: "py_int (X record_a) = Inr 9" by (simp add: record_a_def)
  have h2: "py_int (Z record_a) = Inr 10" by (simp add: record_a_def)
  have h3: "in_bounds (20, 20, 20) (9 + 0, 10, 10 + 0)" by (simp add: in_bounds_def)
  have v: "AT8 record_a = 5" by (simp add: record_a_def)
  from block_stamping_geometry[OF h1 h2 h3, of 7 "\<lambda>_. 0"]
  obtain vmask where s: "stamp_row (20, 20, 20) (0, 10, 0) 7 record_a (\<lambda>_. 0) = Inr vmask"
    and val: "\<And>p. vmask p =
             (if in_bounds (20, 20, 20) p \<and> p \<in> centered_cube (7 div 2) (9 + 0, 10, 10 + 0)
              then AT8 record_a else 0)"
    and o: "centered_cube (7 div 2) (9 + 0, 10, 10 + 0) = spec_cube 7 (9 + 0, 10, 10 + 0)"
    by auto
  have e: "centered_cube (4 div 2) (9 + 0, 10, 10 + 0) = spec_cube (4 + 1) (9 + 0, 10, 10 + 0)"
    using block_stamping_geometry[OF h1 h2 h3, of 4 "\<lambda>_. 0"] by auto
  have "vmask (12, 13, 7) = 5" "vmask (6, 7, 13) = 5" "vmask (13, 10, 10) = 0" "vmask (5, 10, 10) = 0"
    by (simp_all add: val v in_bounds_def centered_cube_def)
  then show ?thesis using h1 h2 h3 s o e by simp
qed

text \<open>
  Claim C2 as stated has, for block size 4, a cube of side 4 reaching from \<open>x - 2\<close> to
  \<open>x + 1\<close>. The code also stamps the voxel at \<open>x + 2\<close>.
\<close>

theorem block_stamping_counterexample:
  "(11, 10, 10) \<notin> spec_cube 4 (9, 10, 10)
   \<and> (case create_3d_blocks (20, 20, 20) (0, 10, 0) 4 [record_a] of
         Inl e \<Rightarrow> False
       | Inr (vmask, td) \<Rightarrow> vmask (11, 10, 10) = 5)"
proof -
  have a: "(11, 10, 10) \<notin> spec_cube 4 (9, 10, 10)" by (simp add: spec_cube_def)
  have "\<forall>r \<in> set [record_a]. \<not> isl (py_int (X r)) \<and> \<not> isl (py_int (Z r))"
    by (simp add: record_a_def)
  then obtain vmask td where c: "create_3d_blocks (20, 20, 20) (0, 10, 0) 4 [record_a] = Inr (vmask, td)"
    using create_3d_blocks_total by blast
  have "stamp_rows (20, 20, 20) (0, 10, 0) 4 ([] @ record_a # []) (\<lambda>_. 0) = Inr vmask"
    using create_3d_blocks_mask[OF c] by simp
  moreover have "covers (20, 20, 20) (0, 10, 0) 4 record_a (11, 10, 10)"
    by (simp add: covers_def record_a_def in_bounds_def centered_cube_def)
  ultimately have "vmask (11, 10, 10) = AT8 record_a"
    by (rule stamp_rows_last) simp
  then show ?thesis using a c by (simp add: record_a_def)
qed

text \<open>
  Claim C3. When the cubes of two rows both contain a voxel, and no row after the later
  one does, the voxel holds exactly the value of the later row after the build.
\<close>

theorem last_write_wins:
  assumes "create_3d_blocks shape manual_coords block_size (pre @ a # mid @ b # post) = Inr (vmask, td)"
      and "covers shape manual_coords block_size a p"
      and "covers shape manual_coords block_size b p"
      and "\<forall>r \<in> set post. \<not> covers shape manual_coords block_size r p"
  shows "vmask p = AT8 b"
proof -
  have "stamp_rows shape manual_coords block_size ((pre @ a # mid) @ b # post) (\<lambda>_. 0) = Inr vmask"
    using create_3d_blocks_mask[OF assms(1)] by simp
  then show ?thesis using assms(3,4) by (rule stamp_rows_last)
qed

text \<open>
  The theorem at the specification's example: row A with value 5, then row B with value 9,
  both covering the voxel \<open>(10, 10, 10)\<close>, leave it at 9.
\<close>

theorem last_write_wins_witness:
  "covers (20, 20, 20) (0, 10, 0) 7 record_a (10, 10, 10)
   \<and> covers (20, 20, 20) (0, 10, 0) 7 record_b (10, 10, 10)
   \<and> (case create_3d_blocks (20, 20, 20) (0, 10, 0) 7 [record_a, record_b] of
         Inl e \<Rightarrow> False
       | Inr (vmask, td) \<Rightarrow> vmask (10, 10, 10) = 9)"
proof -
  have "\<forall>r \<in> set [record_a, record_b]. \<not> isl (py_int (X r)) \<and> \<not> isl (py_int (Z r))"
    by (simp add: record_a_def record_b_def)
  then obtain vmask td where c: "create_3d_blocks (20, 20, 20) (0, 10, 0) 7 [record_a, record_b] = Inr (vmask, td)"
    using create_3d_blocks_total by blast
  then have c': "create_3d_blocks (20, 20, 20) (0, 10, 0) 7 ([] @ record_a # [] @ record_b # []) = Inr (vmask, td)"
    by simp
  have "vmask (10, 10, 10) = AT8 record_b"
    using last_write_wins[OF c' record_a_covers record_b_covers] by simp
  then show ?thesis using c record_a_covers record_b_covers by (simp add: record_b_def)
qed

text \<open>
  Claim C4. For a table whose \<open>X\<close> and \<open>Z\<close> fields are integers, the build returns
  a mask and does not raise, whatever the manual coordinates are; every voxel index outside
  the image keeps the value 0; and a row whose absolute coordinate lies outside the image
  on any axis leaves the mask it is given unchanged.
\<close>

theorem bounds_safe_stamping:
  assumes "\<forall>r \<in> set df. \<not> isl (py_int (X r)) \<and> \<not> isl (py_int (Z r))"
  shows "(\<exists>vmask td. create_3d_blocks shape (x_offset, y_slice, z_offset) block_size df = Inr (vmask, td)
            \<and> (\<forall>p. \<not> in_bounds shape p \<longrightarrow> vmask p = 0))
       \<and> (\<forall>row \<in> set df. \<forall>m.
            \<not> in_bounds shape (projr (py_int (X row)) + x_offset, y_slice, projr (py_int (Z row)) + z_offset)
            \<longrightarrow> stamp_row shape (x_offset, y_slice, z_offset) block_size row m = Inr m)"
proof -
  obtain vmask td where c: "create_3d_blocks shape (x_offset, y_slice, z_offset) block_size df = Inr (vmask, td)"
    using create_3d_blocks_total[OF assms] by blast
  have "\<not> in_bounds shape p \<Longrightarrow> vmask p = 0" for p
    using stamp_rows_outside[OF create_3d_blocks_mask[OF c]] by simp
  then have first: "\<exists>vmask td. create_3d_blocks shape (x_offset, y_slice, z_offset) block_size df = Inr (vmask, td)
            \<and> (\<forall>p. \<not> in_bounds shape p \<longrightarrow> vmask p = 0)"
    using c by blast
  have second: "stamp_row shape (x_offset, y_slice, z_offset) block_size row m = Inr m"
    if "row \<in> set df"
      and "\<not> in_bounds shape (projr (py_int (X row)) + x_offset, y_slice, projr (py_int (Z row)) + z_offset)"
    for row m
  proof -
    from that(1) assms obtain ox oz where "py_int (X row) = Inr ox" "py_int (Z row) = Inr oz"
      by (cases "py_int (X row)"; cases "py_int (Z row)") auto
    then show ?thesis using that(2) by (simp add: stamp_row_def Let_def)
  qed
  show ?thesis using first second by blast
qed


text \<open>
  The theorem at a table with the far row and an in-bounds row: the far row changes
  nothing, the build succeeds.
\<close>

theorem bounds_safe_stamping_witness:
  "\<not> isl (py_int (X record_far)) \<and> \<not> isl (py_int (Z record_far))
   \<and> \<not> isl (py_int (X record_a)) \<and> \<not> isl (py_int (Z record_a))
   \<and> \<not> in_bounds (20, 20, 20) (100 + 0, 10, 10 + 0)
   \<and> stamp_row (20, 20, 20) (0, 10, 0) 7 record_far (\<lambda>_. 0) = Inr (\<lambda>_. 0)
   \<and> (case create_3d_blocks (20, 20, 20) (0, 10, 0) 7 [record_far, record_a] of
         Inl e \<Rightarrow> False
       | Inr (vmask, td) \<Rightarrow> vmask (100, 10, 10) = 0 \<and> vmask (9, 10, 20) = 0)"
proof -
  have h: "\<forall>r \<in> set [record_far, record_a]. \<not> isl (py_int (X r)) \<and> \<not> isl (py_int (Z r))"
    by (simp add: record_a_def record_far_def)
  have nb: "\<not> in_bounds (20, 20, 20) (100 + 0, 10, 10 + 0)" "\<not> in_bounds (20, 20, 20) (100, 10, 10)"
    "\<not> in_bounds (20, 20, 20) (9, 10, 20)"
    by (simp_all add: in_bounds_def)
  have pr: "projr (py_int (X record_far)) = 100" "projr (py_int (Z record_far)) = 10"
    by (simp_all add: record_far_def)
  note t = bounds_safe_stamping[OF h, of "(20, 20, 20)" 0 10 0 7]
  from t obtain vmask td where c: "create_3d_blocks (20, 20, 20) (0, 10, 0) 7 [record_far, record_a] = Inr (vmask, td)"
    and z: "\<And>p. \<not> in_bounds (20, 20, 20) p \<Longrightarrow> vmask p = 0"
    by blast
  have s: "stamp_row (20, 20, 20) (0, 10, 0) 7 record_far (\<lambda>_. 0) = Inr (\<lambda>_. 0)"
    using t nb(1) pr by simp
  show ?thesis using h nb s c z[OF nb(2)] z[OF nb(3)] by simp
qed


end
